theory Spec2Isabelle
  imports Complex_Main "HOL-Library.Multiset"
begin

section \<open>The PhysNet calculator of calculator.py\<close>

text \<open>
  A shallow embedding of the class \<^verbatim>\<open>PhysNetCalculator\<close>. The neural network, the
  argument parser, the checkpoint loader and the neighbour search of the simulation
  environment are external: they are parameters of the model (the records \<open>network\<close> and
  \<open>env\<close>), each returning an error or a value. An exception of the source is a value
  \<open>Inl e\<close>; it ends the call, as an uncaught exception does, and the object's state after
  it is not modelled.

  Numbers: network outputs are real numbers, so rounding, overflow and a network that
  itself returns a NaN or an infinity are outside the model. What numpy does on a
  division by zero is inside it: the quotient is not finite (an infinity or a NaN, with a
  warning and no exception), written \<open>NonFinite\<close>. A coordinate of a configuration and
  an entry of its cell is a real number or NaN, because the comparison of two
  configurations depends on it: NaN is equal to nothing, itself included. Infinite
  coordinates, which compare as numbers do, are outside the model.
\<close>

subsection \<open>Errors and numbers\<close>

datatype error =
    RuntimeError
  | TypeError
  | ValueError
  | IndexError
  | AttributeError
  | KeyError
  | ConfigError
  | LoadError
  | NetworkError

datatype npfloat = Fin real | NonFinite

fun np_div :: "real \<Rightarrow> real \<Rightarrow> npfloat" where
  "np_div x y = (if y = 0 then NonFinite else Fin (x / y))"

fun np_mul :: "npfloat \<Rightarrow> npfloat \<Rightarrow> npfloat" where
  "np_mul (Fin x) (Fin y) = Fin (x * y)"
| "np_mul NonFinite b = NonFinite"
| "np_mul a NonFinite = NonFinite"

text \<open>
  An elementwise operation of numpy on two one-dimensional arrays: equal lengths pair up,
  an array of one element is stretched, any other pair of shapes raises ValueError.
\<close>

definition broadcast :: "('a \<Rightarrow> 'b \<Rightarrow> 'c) \<Rightarrow> 'a list \<Rightarrow> 'b list \<Rightarrow> error + 'c list" where
  "broadcast f xs ys =
     (if length xs = length ys then Inr (map2 f xs ys)
      else if length xs = 1 then Inr (map (f (hd xs)) ys)
      else if length ys = 1 then Inr (map (\<lambda>x. f x (hd ys)) xs)
      else Inl ValueError)"

text \<open>Reading element \<open>k\<close> of a one-dimensional tensor; out of range raises IndexError.\<close>

definition tensor_get :: "'a list \<Rightarrow> nat \<Rightarrow> error + 'a" where
  "tensor_get xs k = (if k < length xs then Inr (xs ! k) else Inl IndexError)"

subsection \<open>Configurations\<close>

type_synonym vec3 = "real \<times> real \<times> real"

text \<open>A floating-point entry of the positions or of the cell, and numpy's arithmetic and
  \<^verbatim>\<open>==\<close> on such entries.\<close>

datatype coord = Num real | NaN

type_synonym coord3 = "coord \<times> coord \<times> coord"

fun coord_add :: "coord \<Rightarrow> coord \<Rightarrow> coord" where
  "coord_add (Num x) (Num y) = Num (x + y)"
| "coord_add NaN b = NaN"
| "coord_add a NaN = NaN"

fun coord_scale :: "int \<Rightarrow> coord \<Rightarrow> coord" where
  "coord_scale s (Num x) = Num (of_int s * x)"
| "coord_scale s NaN = NaN"

fun coord_eq :: "coord \<Rightarrow> coord \<Rightarrow> bool" where
  "coord_eq (Num x) (Num y) = (x = y)"
| "coord_eq NaN b = False"
| "coord_eq a NaN = False"

definition coord3_eq :: "coord3 \<Rightarrow> coord3 \<Rightarrow> bool" where
  "coord3_eq u v =
     (case u of (u1, u2, u3) \<Rightarrow> case v of (v1, v2, v3) \<Rightarrow>
        coord_eq u1 v1 \<and> coord_eq u2 v2 \<and> coord_eq u3 v3)"

definition cell_eq :: "coord3 \<times> coord3 \<times> coord3 \<Rightarrow> coord3 \<times> coord3 \<times> coord3 \<Rightarrow> bool" where
  "cell_eq p q =
     (case p of (p1, p2, p3) \<Rightarrow> case q of (q1, q2, q3) \<Rightarrow>
        coord3_eq p1 q1 \<and> coord3_eq p2 q2 \<and> coord3_eq p3 q3)"

record atoms =
  numbers :: "int list"
  positions :: "coord3 list"
  cell :: "coord3 \<times> coord3 \<times> coord3"
  pbc :: "bool \<times> bool \<times> bool"

text \<open>
  The comparison of two configurations of the simulation environment, which
  \<^verbatim>\<open>atoms != self.last_atoms\<close> calls: equal when the atom counts are equal and the
  positions, the atomic numbers, the cell and the periodic flags are equal entry by
  entry, by numpy's \<^verbatim>\<open>==\<close> and \<^verbatim>\<open>all()\<close>.
\<close>

definition atoms_eq :: "atoms \<Rightarrow> atoms \<Rightarrow> bool" where
  "atoms_eq a b =
     (length (positions a) = length (positions b) \<and>
      list_all2 coord3_eq (positions a) (positions b) \<and>
      numbers a = numbers b \<and> cell_eq (cell a) (cell b) \<and> pbc a = pbc b)"

definition atoms_ne :: "atoms \<Rightarrow> atoms \<Rightarrow> bool" where
  "atoms_ne a b = (\<not> atoms_eq a b)"

text \<open>For stating the theorems: a configuration that holds a NaN among its positions or
  the entries of its cell.\<close>

definition coord3_nan :: "coord3 \<Rightarrow> bool" where
  "coord3_nan u = (case u of (u1, u2, u3) \<Rightarrow> u1 = NaN \<or> u2 = NaN \<or> u3 = NaN)"

definition has_nan :: "atoms \<Rightarrow> bool" where
  "has_nan a =
     (list_ex coord3_nan (positions a) \<or>
      (case cell a of (p1, p2, p3) \<Rightarrow> coord3_nan p1 \<or> coord3_nan p2 \<or> coord3_nan p3))"

definition len_atoms :: "atoms \<Rightarrow> nat" where
  "len_atoms a = length (positions a)"

definition any_pbc :: "atoms \<Rightarrow> bool" where
  "any_pbc a = (case pbc a of (x, y, z) \<Rightarrow> x \<or> y \<or> z)"

definition cell_diagonal :: "coord3 \<times> coord3 \<times> coord3 \<Rightarrow> coord3" where
  "cell_diagonal c = (case c of ((a, _, _), (_, b, _), (_, _, d)) \<Rightarrow> (a, b, d))"

text \<open>\<^verbatim>\<open>np.dot(S, atoms.get_cell())\<close>: each integer shift, a row, times the cell matrix.\<close>

definition shift_dot_cell :: "(int \<times> int \<times> int) \<Rightarrow> coord3 \<times> coord3 \<times> coord3 \<Rightarrow> coord3" where
  "shift_dot_cell s c =
     (case s of (s1, s2, s3) \<Rightarrow>
      case c of ((a1, a2, a3), (b1, b2, b3), (c1, c2, c3)) \<Rightarrow>
        (coord_add (coord_add (coord_scale s1 a1) (coord_scale s2 b1)) (coord_scale s3 c1),
         coord_add (coord_add (coord_scale s1 a2) (coord_scale s2 b2)) (coord_scale s3 c2),
         coord_add (coord_add (coord_scale s1 a3) (coord_scale s2 b3)) (coord_scale s3 c3)))"

definition np_dot :: "(int \<times> int \<times> int) list \<Rightarrow> coord3 \<times> coord3 \<times> coord3 \<Rightarrow> coord3 list" where
  "np_dot S c = map (\<lambda>s. shift_dot_cell s c) S"

subsection \<open>The all-pairs index\<close>

definition arange :: "nat \<Rightarrow> int list" where
  "arange N = map int [0..<N]"

text \<open>\<^verbatim>\<open>idx.repeat(k)\<close> tiles the tensor \<open>k\<close> times. A negative count raises on a
  tensor that has elements (its size would be negative) and leaves an empty tensor
  empty.\<close>

definition repeat :: "int list \<Rightarrow> int \<Rightarrow> error + int list" where
  "repeat xs k =
     (if k < 0 \<and> xs \<noteq> [] then Inl RuntimeError else Inr (concat (replicate (nat k) xs)))"

text \<open>
  \<^verbatim>\<open>torch.roll(x, s, dims=0)\<close> moves every element \<open>s\<close> places towards the end, around
  the end; a negative \<open>s\<close> moves them towards the front.
\<close>

definition roll :: "'a list \<Rightarrow> int \<Rightarrow> 'a list" where
  "roll xs s = (if xs = [] then [] else rotate (nat ((- s) mod int (length xs))) xs)"

text \<open>The loop \<^verbatim>\<open>for Na in torch.arange(2, N)\<close>, on the values of \<open>Na\<close> still to come.\<close>

fun roll_loop :: "int list \<Rightarrow> nat list \<Rightarrow> int list \<Rightarrow> int list" where
  "roll_loop idx [] idx_j = idx_j"
| "roll_loop idx (Na # Nas) idx_j = roll_loop idx Nas (idx_j @ roll idx (- int Na))"

definition get_indices :: "atoms \<Rightarrow> error + (int list \<times> int list)" where
  "get_indices a =
     (let N = len_atoms a;
          idx = arange N
      in case repeat idx (int N - 1) of
           Inl e \<Rightarrow> Inl e
         | Inr idx_i \<Rightarrow>
             let idx_j = roll idx (- 1);
                 idx_j' = (if N \<ge> 2 then roll_loop idx [2..<N] idx_j else idx_j)
             in Inr (sort idx_i, idx_j'))"

text \<open>For stating what the index holds: the pair at position \<open>k\<close> of the index of \<open>n\<close> atoms,
  as the tiling, the rolls and the sort leave it.\<close>

definition index_pair :: "nat \<Rightarrow> nat \<Rightarrow> int \<times> int" where
  "index_pair n k = (int (k div (n - 1)), int ((k mod n + k div n + 1) mod n))"


subsection \<open>The external interfaces\<close>

text \<open>
  What calculate hands to a network entry point. The molecular-dynamics entry points are
  called without offsets and short-range lists; for them these fields are \<open>None\<close>.
\<close>

record net_input =
  in_Z :: "int list"
  in_R :: "coord3 list"
  in_idx_i :: "int list"
  in_idx_j :: "int list"
  in_Q_tot :: "real list"
  in_offsets :: "coord3 list option"
  in_sr_idx_i :: "int list option"
  in_sr_idx_j :: "int list option"
  in_sr_offsets :: "coord3 list option"

record evidential_out =
  out_energy :: "real list"
  out_lambdas :: "real list"
  out_alpha :: "real list"
  out_beta :: "real list"
  out_charges :: "real list"
  out_forces :: "vec3 list"

record md_out =
  out_pred :: "real list"
  out_Dip :: "real list"
  out_md_forces :: "vec3 list"

record network =
  energy_forces_and_hessian_evidential :: "net_input \<Rightarrow> error + (evidential_out \<times> real list list)"
  energy_forces_and_others_evidential :: "net_input \<Rightarrow> error + evidential_out"
  energy_hessian_and_forces_md_evidencial :: "net_input \<Rightarrow> error + (md_out \<times> real list list)"
  energy_and_forces_md_evidencial :: "net_input \<Rightarrow> error + md_out"

text \<open>The parsed configuration file; the fields the calculator itself reads.\<close>

record args =
  cutoff :: real
  args_device :: string
  args_DER_type :: "string option"

text \<open>
  The environment: the argument parser on the configuration file, the constructor of the
  network, the checkpoint loader (loading the file and the state dictionary), and the
  neighbour search \<^verbatim>\<open>neighbor_list('ijS', atoms, cutoff)\<close>, whose cutoff is the value
  the calculator passes, \<open>None\<close> included.
\<close>

record env =
  parse_args :: "string \<Rightarrow> error + args"
  PhysNet :: "args \<Rightarrow> network"
  torch_load :: "string \<Rightarrow> error + unit"
  neighbor_list ::
    "atoms \<Rightarrow> real option \<Rightarrow> error + (int list \<times> int list \<times> (int \<times> int \<times> int) list)"

subsection \<open>The calculator's state\<close>

datatype pyval =
    PyNone
  | Energy "real list"
  | Forces "vec3 list"
  | Hessian "real list list"

text \<open>
  The attributes of the object. An attribute that calculate assigns first is an
  \<open>option\<close>: \<open>None\<close> while it is not set (reading it raises AttributeError). The stored
  Hessian is \<open>Some None\<close> when it is Python's None. A zero-dimensional array (the stored
  uncertainty of the molecular-dynamics branch) is a list of one element.
  \<open>n_calculate\<close> is not an attribute of the source: it counts the completed runs of
  calculate, so that the theorems can speak of recomputations.
\<close>

record calc =
  sr_cutoff :: real
  lr_cutoff :: "real option"
  use_neighborlist :: bool
  self_pbc :: "bool \<times> bool \<times> bool"
  self_cell :: coord3
  device :: string
  hessian_active :: bool
  DER_type :: "string option"
  checkpoint :: "string option"
  model :: network
  self_Z :: "int list"
  self_R :: "coord3 list"
  Q_tot :: "real list"
  idx_i :: "int list"
  idx_j :: "int list"
  last_atoms :: "atoms option"
  last_energy :: "real list option"
  last_charges :: "real list option"
  last_forces :: "vec3 list option"
  last_hessian :: "real list list option option"
  sigma2 :: "npfloat list option"
  variance :: "npfloat list option"
  results :: "string \<rightharpoonup> pyval"
  n_calculate :: nat

subsection \<open>calculation_required\<close>

definition calculation_required :: "calc \<Rightarrow> atoms \<Rightarrow> bool" where
  "calculation_required c a =
     (case last_atoms c of None \<Rightarrow> True | Some l \<Rightarrow> atoms_ne a l)"

subsection \<open>calculate\<close>

text \<open>The pair lists and offsets: the neighbour search, twice, or the static index.\<close>

definition find_neighbors ::
  "env \<Rightarrow> calc \<Rightarrow> atoms \<Rightarrow>
   error + (int list \<times> int list \<times> coord3 list option \<times> int list option \<times> int list option \<times> coord3 list option)" where
  "find_neighbors E c a =
     (if use_neighborlist c \<or> any_pbc a then
        case neighbor_list E a (lr_cutoff c) of
          Inl e \<Rightarrow> Inl e
        | Inr (i, j, S) \<Rightarrow>
            (case neighbor_list E a (Some (sr_cutoff c)) of
               Inl e \<Rightarrow> Inl e
             | Inr (sr_i, sr_j, sr_S) \<Rightarrow>
                 Inr (i, j, Some (np_dot S (cell a)), Some sr_i, Some sr_j,
                      Some (np_dot sr_S (cell a))))
      else Inr (idx_i c, idx_j c, None, None, None, None))"

text \<open>
  The condition \<^verbatim>\<open>self.DER_type == 'simple' or 'Lipz'\<close>: Python's \<open>or\<close> of a comparison
  and a string, read as a condition; a string is true when it is not empty.
\<close>

definition str_truthy :: "string \<Rightarrow> bool" where
  "str_truthy s = (s \<noteq> [])"

definition selects_simple :: "string option \<Rightarrow> bool" where
  "selects_simple t = (t = Some ''simple'' \<or> str_truthy ''Lipz'')"

text \<open>The first branch: the evidential entry point, then the derived uncertainty.\<close>

definition call_evidential :: "calc \<Rightarrow> net_input \<Rightarrow> error + (calc \<times> evidential_out)" where
  "call_evidential c inp =
     (if hessian_active c then
        case energy_forces_and_hessian_evidential (model c) inp of
          Inl e \<Rightarrow> Inl e
        | Inr (out, H) \<Rightarrow>
            Inr (c\<lparr>last_energy := Some (out_energy out), last_charges := Some (out_charges out),
                   last_forces := Some (out_forces out), last_hessian := Some (Some H)\<rparr>, out)
      else
        case energy_forces_and_others_evidential (model c) inp of
          Inl e \<Rightarrow> Inl e
        | Inr out \<Rightarrow>
            Inr (c\<lparr>last_energy := Some (out_energy out), last_charges := Some (out_charges out),
                   last_forces := Some (out_forces out)\<rparr>, out))"

definition simple_sigma2 :: "evidential_out \<Rightarrow> error + npfloat list" where
  "simple_sigma2 out = broadcast np_div (out_beta out) (map (\<lambda>x. x - 1) (out_alpha out))"

definition simple_var :: "evidential_out \<Rightarrow> npfloat list \<Rightarrow> error + npfloat list" where
  "simple_var out s2 = broadcast np_mul (map (np_div 1) (out_lambdas out)) s2"

definition simple_branch :: "calc \<Rightarrow> net_input \<Rightarrow> error + calc" where
  "simple_branch c inp =
     (case call_evidential c inp of
        Inl e \<Rightarrow> Inl e
      | Inr (c1, out) \<Rightarrow>
          (case simple_sigma2 out of
             Inl e \<Rightarrow> Inl e
           | Inr s2 \<Rightarrow>
               (case simple_var out s2 of
                  Inl e \<Rightarrow> Inl e
                | Inr v \<Rightarrow>
                    let c2 = c1\<lparr>sigma2 := Some s2, variance := Some v\<rparr>
                    in Inr (if hessian_active c2 then c2
                            else c2\<lparr>last_hessian := Some None\<rparr>))))"

text \<open>
  The second branch: the packed prediction, the lower-triangular matrix \<open>L\<close>, the
  covariance \<open>L L\<^sup>T\<close> and what is derived from it. A two-by-two matrix is the pair of its
  rows.
\<close>

type_synonym 'a mat2 = "('a \<times> 'a) \<times> ('a \<times> 'a)"

definition transpose2 :: "'a mat2 \<Rightarrow> 'a mat2" where
  "transpose2 M = (case M of ((a, b), (c, d)) \<Rightarrow> ((a, c), (b, d)))"

definition matmul2 :: "real mat2 \<Rightarrow> real mat2 \<Rightarrow> real mat2" where
  "matmul2 A B =
     (case A of ((a, b), (c, d)) \<Rightarrow>
      case B of ((p, q), (r, s)) \<Rightarrow>
        ((a * p + b * r, a * q + b * s), (c * p + d * r, c * q + d * s)))"

definition scale2 :: "npfloat \<Rightarrow> npfloat mat2 \<Rightarrow> npfloat mat2" where
  "scale2 k M =
     (case M of ((a, b), (c, d)) \<Rightarrow> ((np_mul k a, np_mul k b), (np_mul k c, np_mul k d)))"

definition fin2 :: "real mat2 \<Rightarrow> npfloat mat2" where
  "fin2 M = (case M of ((a, b), (c, d)) \<Rightarrow> ((Fin a, Fin b), (Fin c, Fin d)))"

definition elem00 :: "'a mat2 \<Rightarrow> 'a" where
  "elem00 M = fst (fst M)"

definition call_md :: "calc \<Rightarrow> net_input \<Rightarrow> error + (calc \<times> md_out)" where
  "call_md c inp =
     (if hessian_active c then
        case energy_hessian_and_forces_md_evidencial (model c) inp of
          Inl e \<Rightarrow> Inl e
        | Inr (out, H) \<Rightarrow>
            Inr (c\<lparr>last_forces := Some (out_md_forces out), last_hessian := Some (Some H)\<rparr>, out)
      else
        case energy_and_forces_md_evidencial (model c) inp of
          Inl e \<Rightarrow> Inl e
        | Inr out \<Rightarrow> Inr (c\<lparr>last_forces := Some (out_md_forces out)\<rparr>, out))"

definition md_sigma :: "real \<Rightarrow> real \<Rightarrow> real \<Rightarrow> real mat2" where
  "md_sigma p2 p3 p4 = (let L = ((p2, 0), (p3, p4)) in matmul2 L (transpose2 L))"

definition md_sigma2 :: "real \<Rightarrow> real mat2 \<Rightarrow> npfloat mat2" where
  "md_sigma2 nu sigma = scale2 (np_div nu (nu - 3)) (fin2 sigma)"

definition md_var :: "real \<Rightarrow> npfloat mat2 \<Rightarrow> npfloat mat2" where
  "md_var nu s2 = scale2 (np_div 1 nu) s2"

definition md_branch :: "calc \<Rightarrow> net_input \<Rightarrow> error + calc" where
  "md_branch c inp =
     (case call_md c inp of
        Inl e \<Rightarrow> Inl e
      | Inr (c1, out) \<Rightarrow>
      case tensor_get (out_pred out) 0 of Inl e \<Rightarrow> Inl e | Inr mu0 \<Rightarrow>
      case tensor_get (out_pred out) 1 of Inl e \<Rightarrow> Inl e | Inr mu1 \<Rightarrow>
      case tensor_get (out_pred out) 2 of Inl e \<Rightarrow> Inl e | Inr p2 \<Rightarrow>
      case tensor_get (out_pred out) 3 of Inl e \<Rightarrow> Inl e | Inr p3 \<Rightarrow>
      case tensor_get (out_pred out) 4 of Inl e \<Rightarrow> Inl e | Inr p4 \<Rightarrow>
      case tensor_get (out_pred out) 5 of Inl e \<Rightarrow> Inl e | Inr nu \<Rightarrow>
        let sigma = md_sigma p2 p3 p4;
            s2 = md_sigma2 nu sigma;
            var = md_var nu s2;
            c2 = c1\<lparr>last_energy := Some [mu0], sigma2 := Some [Fin (elem00 sigma)],
                    variance := Some [elem00 var]\<rparr>
        in Inr (if hessian_active c2 then c2 else c2\<lparr>last_hessian := Some None\<rparr>))"

text \<open>The results dictionary and the copy of the configuration, stored last.\<close>

definition store_results :: "calc \<Rightarrow> atoms \<Rightarrow> error + calc" where
  "store_results c a =
     (case last_energy c of None \<Rightarrow> Inl AttributeError | Some e \<Rightarrow>
      case last_forces c of None \<Rightarrow> Inl AttributeError | Some f \<Rightarrow>
      case last_hessian c of None \<Rightarrow> Inl AttributeError | Some h \<Rightarrow>
        Inr (c\<lparr>results := (results c)
                   (''energy'' \<mapsto> Energy e, ''forces'' \<mapsto> Forces f,
                    ''hessian'' \<mapsto> (case h of None \<Rightarrow> PyNone | Some H \<Rightarrow> Hessian H)),
               last_atoms := Some a\<rparr>))"

definition dispatch :: "calc \<Rightarrow> net_input \<Rightarrow> error + calc" where
  "dispatch c inp =
     (if selects_simple (DER_type c) then simple_branch c inp
      else if DER_type c = Some ''MD'' then
        md_branch c (inp\<lparr>in_offsets := None, in_sr_idx_i := None, in_sr_idx_j := None,
                          in_sr_offsets := None\<rparr>)
      else Inr c)"

text \<open>The arguments of the network call: the tensors of the object and the pair lists.\<close>

definition network_input ::
  "calc \<Rightarrow>
   int list \<times> int list \<times> coord3 list option \<times> int list option \<times> int list option \<times> coord3 list option \<Rightarrow>
   net_input" where
  "network_input c nb =
     (case nb of (i, j, offsets, sr_i, sr_j, sr_offsets) \<Rightarrow>
        \<lparr>in_Z = self_Z c, in_R = self_R c, in_idx_i = i, in_idx_j = j,
         in_Q_tot = Q_tot c, in_offsets = offsets, in_sr_idx_i = sr_i,
         in_sr_idx_j = sr_j, in_sr_offsets = sr_offsets\<rparr>)"

definition calculate :: "env \<Rightarrow> calc \<Rightarrow> atoms \<Rightarrow> error + calc" where
  "calculate E c a =
     (case find_neighbors E c a of
        Inl e \<Rightarrow> Inl e
      | Inr nb \<Rightarrow>
          let c1 = c\<lparr>self_R := positions a\<rparr>
          in case dispatch c1 (network_input c1 nb) of
               Inl e \<Rightarrow> Inl e
             | Inr c2 \<Rightarrow>
                 (case store_results c2 a of
                    Inl e \<Rightarrow> Inl e
                  | Inr c3 \<Rightarrow> Inr (c3\<lparr>n_calculate := Suc (n_calculate c3)\<rparr>)))"

subsection \<open>The accessors\<close>

definition recompute_if_required :: "env \<Rightarrow> calc \<Rightarrow> atoms \<Rightarrow> error + calc" where
  "recompute_if_required E c a =
     (if calculation_required c a then calculate E c a else Inr c)"

definition get_potential_energy :: "env \<Rightarrow> calc \<Rightarrow> atoms \<Rightarrow> error + (calc \<times> pyval)" where
  "get_potential_energy E c a =
     (case recompute_if_required E c a of
        Inl e \<Rightarrow> Inl e
      | Inr c' \<Rightarrow>
          (case results c' ''energy'' of None \<Rightarrow> Inl KeyError | Some v \<Rightarrow> Inr (c', v)))"

definition get_potential_energy_and_uncertainty ::
  "env \<Rightarrow> calc \<Rightarrow> atoms \<Rightarrow> error + (calc \<times> real list \<times> npfloat list \<times> npfloat list)" where
  "get_potential_energy_and_uncertainty E c a =
     (case recompute_if_required E c a of
        Inl e \<Rightarrow> Inl e
      | Inr c' \<Rightarrow>
      case last_energy c' of None \<Rightarrow> Inl AttributeError | Some e \<Rightarrow>
      case variance c' of None \<Rightarrow> Inl AttributeError | Some v \<Rightarrow>
      case sigma2 c' of None \<Rightarrow> Inl AttributeError | Some s \<Rightarrow> Inr (c', e, v, s))"

definition get_potential_energy_uncertainty_and_forces ::
  "env \<Rightarrow> calc \<Rightarrow> atoms \<Rightarrow>
   error + (calc \<times> real list \<times> npfloat list \<times> npfloat list \<times> vec3 list)" where
  "get_potential_energy_uncertainty_and_forces E c a =
     (case recompute_if_required E c a of
        Inl e \<Rightarrow> Inl e
      | Inr c' \<Rightarrow>
      case last_energy c' of None \<Rightarrow> Inl AttributeError | Some e \<Rightarrow>
      case variance c' of None \<Rightarrow> Inl AttributeError | Some v \<Rightarrow>
      case sigma2 c' of None \<Rightarrow> Inl AttributeError | Some s \<Rightarrow>
      case last_forces c' of None \<Rightarrow> Inl AttributeError | Some f \<Rightarrow> Inr (c', e, v, s, f))"

definition get_forces :: "env \<Rightarrow> calc \<Rightarrow> atoms \<Rightarrow> error + (calc \<times> vec3 list)" where
  "get_forces E c a =
     (case recompute_if_required E c a of
        Inl e \<Rightarrow> Inl e
      | Inr c' \<Rightarrow>
          (case last_forces c' of None \<Rightarrow> Inl AttributeError | Some f \<Rightarrow> Inr (c', f)))"

definition get_hessian :: "env \<Rightarrow> calc \<Rightarrow> atoms \<Rightarrow> error + (calc \<times> real list list option)" where
  "get_hessian E c a =
     (case recompute_if_required E c a of
        Inl e \<Rightarrow> Inl e
      | Inr c' \<Rightarrow>
          (case last_hessian c' of None \<Rightarrow> Inl AttributeError | Some h \<Rightarrow> Inr (c', h)))"

subsection \<open>Construction\<close>

text \<open>
  The nested \<^verbatim>\<open>load_checkpoint\<close> returns None for the path None, and subscripting that
  raises TypeError; otherwise the loader's own errors reach the caller.
\<close>

definition load_checkpoint :: "env \<Rightarrow> string option \<Rightarrow> error + unit" where
  "load_checkpoint E path = (case path of None \<Rightarrow> Inl TypeError | Some p \<Rightarrow> torch_load E p)"

text \<open>The attributes as they stand when the constructor calls calculate.\<close>

definition init_attributes ::
  "env \<Rightarrow> args \<Rightarrow> atoms \<Rightarrow> string option \<Rightarrow> real \<Rightarrow> real option \<Rightarrow> bool \<Rightarrow>
   int list \<Rightarrow> int list \<Rightarrow> calc" where
  "init_attributes E ar a ckpt charge lr_cut hessian i j =
     \<lparr>sr_cutoff = cutoff ar,
      lr_cutoff = (case lr_cut of None \<Rightarrow> None | Some l \<Rightarrow> Some l),
      use_neighborlist = (case lr_cut of None \<Rightarrow> False | Some l \<Rightarrow> True),
      self_pbc = pbc a,
      self_cell = cell_diagonal (cell a),
      device = args_device ar,
      hessian_active = hessian,
      DER_type = args_DER_type ar,
      checkpoint = ckpt,
      model = PhysNet E ar,
      self_Z = numbers a,
      self_R = positions a,
      Q_tot = [charge],
      idx_i = i,
      idx_j = j,
      last_atoms = None,
      last_energy = None,
      last_charges = None,
      last_forces = None,
      last_hessian = None,
      sigma2 = None,
      variance = None,
      results = Map.empty,
      n_calculate = 0\<rparr>"

definition init ::
  "env \<Rightarrow> atoms \<Rightarrow> string option \<Rightarrow> string \<Rightarrow> real \<Rightarrow> real option \<Rightarrow> bool \<Rightarrow> error + calc" where
  "init E a ckpt config charge lr_cut hessian =
     (case parse_args E config of
        Inl e \<Rightarrow> Inl e
      | Inr ar \<Rightarrow>
      case get_indices a of
        Inl e \<Rightarrow> Inl e
      | Inr (i, j) \<Rightarrow>
      case load_checkpoint E ckpt of
        Inl e \<Rightarrow> Inl e
      | Inr _ \<Rightarrow>
        (case calculate E (init_attributes E ar a ckpt charge lr_cut hessian i j) a of
           Inl e \<Rightarrow> Inl e
         | Inr c1 \<Rightarrow> Inr (c1\<lparr>last_atoms := None, results := Map.empty\<rparr>)))"

text \<open>What every accessor does before it reads an attribute, as a relation between the state
  before and the state after: calculate has run, once, exactly when calculation_required
  was true.\<close>

definition recomputed :: "env \<Rightarrow> calc \<Rightarrow> atoms \<Rightarrow> calc \<Rightarrow> bool" where
  "recomputed E c a c' =
     (if calculation_required c a
      then calculate E c a = Inr c' \<and> n_calculate c' = Suc (n_calculate c)
      else c' = c)"


subsection \<open>The states a calculator can be in\<close>

text \<open>
  A calculator constructed with the long-range cutoff \<open>lr\<close> and the Hessian flag \<open>hess\<close>,
  after any number of evaluations. An accessor leaves the state as it is or runs
  calculate, so its states are among these.
\<close>

inductive reachable :: "env \<Rightarrow> real option \<Rightarrow> bool \<Rightarrow> calc \<Rightarrow> bool"
  for E :: env and lr :: "real option" and hess :: bool where
  constructed: "init E a ckpt config charge lr hess = Inr c \<Longrightarrow> reachable E lr hess c"
| evaluated: "reachable E lr hess c \<Longrightarrow> calculate E c a = Inr c' \<Longrightarrow> reachable E lr hess c'"

subsection \<open>What one evaluation does, in one piece\<close>

text \<open>
  Two definitions for stating the theorems, proved below to describe calculate: the
  network call of the first branch, with the Hessian it returns or Python's None, and
  the state that a completed evaluation leaves.
\<close>

definition evidential_call ::
  "calc \<Rightarrow> net_input \<Rightarrow> error + (evidential_out \<times> real list list option)" where
  "evidential_call c inp =
     (if hessian_active c then
        case energy_forces_and_hessian_evidential (model c) inp of
          Inl e \<Rightarrow> Inl e | Inr (out, H) \<Rightarrow> Inr (out, Some H)
      else
        case energy_forces_and_others_evidential (model c) inp of
          Inl e \<Rightarrow> Inl e | Inr out \<Rightarrow> Inr (out, None))"

definition evaluated_state ::
  "calc \<Rightarrow> atoms \<Rightarrow> evidential_out \<Rightarrow> real list list option \<Rightarrow> npfloat list \<Rightarrow> npfloat list \<Rightarrow> calc" where
  "evaluated_state c a out hh s2 v =
     c\<lparr>self_R := positions a,
       last_atoms := Some a,
       last_energy := Some (out_energy out),
       last_charges := Some (out_charges out),
       last_forces := Some (out_forces out),
       last_hessian := Some hh,
       sigma2 := Some s2,
       variance := Some v,
       results := (results c)
          (''energy'' \<mapsto> Energy (out_energy out), ''forces'' \<mapsto> Forces (out_forces out),
           ''hessian'' \<mapsto> (case hh of None \<Rightarrow> PyNone | Some H \<Rightarrow> Hessian H)),
       n_calculate := Suc (n_calculate c)\<rparr>"

subsection \<open>A concrete environment\<close>

text \<open>
  Two hydrogen atoms, free, with a NaN coordinate and in a periodic box, a single atom,
  and a network that returns fixed outputs: the evidential parameters \<open>lambda = 2\<close>, \<open>beta = 4\<close> and a chosen
  \<open>alpha\<close>, and the packed prediction \<open>[-1, 0, 1, 1/2, 1, 5]\<close>. The neighbour search of
  this environment raises TypeError on the cutoff None. They are the inputs at which the
  theorems below are evaluated.
\<close>

definition h2 :: atoms where
  "h2 = \<lparr>numbers = [1, 1],
         positions = [(Num 0, Num 0, Num 0), (Num 0, Num 0, Num (3 / 4))],
         cell = ((Num 0, Num 0, Num 0), (Num 0, Num 0, Num 0), (Num 0, Num 0, Num 0)),
         pbc = (False, False, False)\<rparr>"

definition h2_stretched :: atoms where
  "h2_stretched = \<lparr>numbers = [1, 1],
         positions = [(Num 0, Num 0, Num 0), (Num 0, Num 0, Num 1)],
         cell = ((Num 0, Num 0, Num 0), (Num 0, Num 0, Num 0), (Num 0, Num 0, Num 0)),
         pbc = (False, False, False)\<rparr>"

definition h2_nan :: atoms where
  "h2_nan = \<lparr>numbers = [1, 1],
         positions = [(Num 0, Num 0, Num 0), (Num 0, Num 0, NaN)],
         cell = ((Num 0, Num 0, Num 0), (Num 0, Num 0, Num 0), (Num 0, Num 0, Num 0)),
         pbc = (False, False, False)\<rparr>"

definition h2_periodic :: atoms where
  "h2_periodic = \<lparr>numbers = [1, 1],
         positions = [(Num 0, Num 0, Num 0), (Num 0, Num 0, Num (3 / 4))],
         cell = ((Num 5, Num 0, Num 0), (Num 0, Num 5, Num 0), (Num 0, Num 0, Num 5)),
         pbc = (True, True, True)\<rparr>"

definition single_atom :: atoms where
  "single_atom = \<lparr>numbers = [1], positions = [(Num 0, Num 0, Num 0)],
         cell = ((Num 0, Num 0, Num 0), (Num 0, Num 0, Num 0), (Num 0, Num 0, Num 0)),
         pbc = (False, False, False)\<rparr>"

definition demo_out :: "real \<Rightarrow> evidential_out" where
  "demo_out al = \<lparr>out_energy = [- 1], out_lambdas = [2], out_alpha = [al], out_beta = [4],
       out_charges = [0, 0], out_forces = [(0, 0, 0), (0, 0, 0)]\<rparr>"

definition demo_md_out :: md_out where
  "demo_md_out = \<lparr>out_pred = [- 1, 0, 1, 1 / 2, 1, 5], out_Dip = [0, 0, 0],
       out_md_forces = [(0, 0, 0), (0, 0, 0)]\<rparr>"

definition demo_network :: "real \<Rightarrow> network" where
  "demo_network al =
     \<lparr>energy_forces_and_hessian_evidential = (\<lambda>inp. Inr (demo_out al, [[0]])),
      energy_forces_and_others_evidential = (\<lambda>inp. Inr (demo_out al)),
      energy_hessian_and_forces_md_evidencial = (\<lambda>inp. Inr (demo_md_out, [[0]])),
      energy_and_forces_md_evidencial = (\<lambda>inp. Inr demo_md_out)\<rparr>"

definition demo_env :: "string option \<Rightarrow> real \<Rightarrow> env" where
  "demo_env tag al =
     \<lparr>parse_args = (\<lambda>f. Inr \<lparr>cutoff = 10, args_device = ''cpu'', args_DER_type = tag\<rparr>),
      PhysNet = (\<lambda>ar. demo_network al),
      torch_load = (\<lambda>p. Inr ()),
      neighbor_list = (\<lambda>a r. case r of None \<Rightarrow> Inl TypeError
                                | Some x \<Rightarrow> Inr ([0, 1], [1, 0], [(0, 0, 0), (0, 0, 0)]))\<rparr>"

text \<open>The calculator that construction on the free molecule leaves.\<close>

definition demo_calc :: "string option \<Rightarrow> real \<Rightarrow> calc" where
  "demo_calc tag al =
     \<lparr>sr_cutoff = 10, lr_cutoff = None, use_neighborlist = False,
      self_pbc = (False, False, False), self_cell = (Num 0, Num 0, Num 0), device = ''cpu'',
      hessian_active = False, DER_type = tag, checkpoint = Some ''ckpt'',
      model = demo_network al, self_Z = [1, 1],
      self_R = [(Num 0, Num 0, Num 0), (Num 0, Num 0, Num (3 / 4))],
      Q_tot = [0], idx_i = [0, 1], idx_j = [1, 0], last_atoms = None,
      last_energy = Some [- 1], last_charges = Some [0, 0],
      last_forces = Some [(0, 0, 0), (0, 0, 0)], last_hessian = Some None,
      sigma2 = Some [np_div 4 (al - 1)],
      variance = Some [np_mul (np_div 1 2) (np_div 4 (al - 1))],
      results = Map.empty, n_calculate = 1\<rparr>"

text \<open>The state that an evaluation of \<open>a\<close> in this environment, with \<open>alpha = 3\<close> and the
  Hessian flag false, leaves from the state \<open>c\<close>.\<close>

definition demo_evaluated :: "calc \<Rightarrow> atoms \<Rightarrow> calc" where
  "demo_evaluated c a = evaluated_state c a (demo_out 3) None [Fin 2] [Fin 1]"

section \<open>Properties\<close>

subsection \<open>The concrete environment, evaluated\<close>

lemma h2_fields:
  "numbers h2 = [1, 1]" "positions h2 = [(Num 0, Num 0, Num 0), (Num 0, Num 0, Num (3 / 4))]"
  "cell h2 = ((Num 0, Num 0, Num 0), (Num 0, Num 0, Num 0), (Num 0, Num 0, Num 0))"
  "pbc h2 = (False, False, False)"
  by (simp_all add: h2_def)

lemma get_indices_h2: "get_indices h2 = Inr ([0, 1], [1, 0])"
  by (simp add: get_indices_def h2_fields len_atoms_def arange_def repeat_def roll_def Let_def)

lemma demo_env_fields:
  "parse_args (demo_env tag al) f = Inr \<lparr>cutoff = 10, args_device = ''cpu'', args_DER_type = tag\<rparr>"
  "PhysNet (demo_env tag al) ar = demo_network al"
  "torch_load (demo_env tag al) p = Inr ()"
  "neighbor_list (demo_env tag al) a None = Inl TypeError"
  "neighbor_list (demo_env tag al) a (Some x) = Inr ([0, 1], [1, 0], [(0, 0, 0), (0, 0, 0)])"
  by (simp_all add: demo_env_def)

lemma demo_network_fields:
  "energy_forces_and_hessian_evidential (demo_network al) inp = Inr (demo_out al, [[0]])"
  "energy_forces_and_others_evidential (demo_network al) inp = Inr (demo_out al)"
  "energy_hessian_and_forces_md_evidencial (demo_network al) inp = Inr (demo_md_out, [[0]])"
  "energy_and_forces_md_evidencial (demo_network al) inp = Inr demo_md_out"
  by (simp_all add: demo_network_def)

lemma demo_out_fields:
  "out_energy (demo_out al) = [- 1]" "out_lambdas (demo_out al) = [2]"
  "out_alpha (demo_out al) = [al]" "out_beta (demo_out al) = [4]"
  "out_charges (demo_out al) = [0, 0]" "out_forces (demo_out al) = [(0, 0, 0), (0, 0, 0)]"
  by (simp_all add: demo_out_def)

lemma init_demo:
  "init (demo_env tag al) h2 (Some ''ckpt'') ''config'' 0 None False = Inr (demo_calc tag al)"
  by (simp add: init_def get_indices_h2 demo_env_fields load_checkpoint_def calculate_def
      find_neighbors_def network_input_def any_pbc_def h2_fields dispatch_def selects_simple_def str_truthy_def
      simple_branch_def call_evidential_def demo_network_fields demo_out_fields simple_sigma2_def
      simple_var_def broadcast_def store_results_def demo_calc_def cell_diagonal_def init_attributes_def Let_def
      del: np_div.simps)

subsection \<open>One evaluation\<close>

lemma coord_eq_iff: "coord_eq x y \<longleftrightarrow> x = y \<and> x \<noteq> NaN"
  by (cases x; cases y) simp_all

lemma coord3_eq_iff: "coord3_eq u v \<longleftrightarrow> u = v \<and> \<not> coord3_nan u"
  by (cases u, cases v) (auto simp: coord3_eq_def coord3_nan_def coord_eq_iff)

lemma list_all2_coord3_eq_iff:
  "list_all2 coord3_eq xs ys \<longleftrightarrow> xs = ys \<and> \<not> list_ex coord3_nan xs"
proof (induction xs arbitrary: ys)
  case Nil
  show ?case by auto
next
  case (Cons x xs)
  show ?case
  proof (cases ys)
    case Nil
    then show ?thesis by simp
  next
    case ys: (Cons y zs)
    have "list_all2 coord3_eq (x # xs) (y # zs) \<longleftrightarrow>
          coord3_eq x y \<and> list_all2 coord3_eq xs zs"
      by (rule list_all2_Cons)
    also have "\<dots> \<longleftrightarrow> (x = y \<and> \<not> coord3_nan x) \<and> (xs = zs \<and> \<not> list_ex coord3_nan xs)"
      by (simp only: coord3_eq_iff Cons.IH)
    also have "\<dots> \<longleftrightarrow> x # xs = y # zs \<and> \<not> list_ex coord3_nan (x # xs)"
      by auto
    finally show ?thesis by (simp only: ys)
  qed
qed

lemma cell_eq_iff:
  "cell_eq p q \<longleftrightarrow>
     p = q \<and> \<not> (case p of (p1, p2, p3) \<Rightarrow> coord3_nan p1 \<or> coord3_nan p2 \<or> coord3_nan p3)"
  by (cases p, cases q) (auto simp: cell_eq_def coord3_eq_iff)

lemma atoms_eq_iff: "atoms_eq a b \<longleftrightarrow> a = b \<and> \<not> has_nan a"
  by (cases a, cases b)
     (auto simp: atoms_eq_def has_nan_def list_all2_coord3_eq_iff cell_eq_iff)

lemma calculation_required_iff:
  "calculation_required c a \<longleftrightarrow> last_atoms c \<noteq> Some a \<or> has_nan a"
  by (cases "last_atoms c") (auto simp: calculation_required_def atoms_ne_def atoms_eq_iff)

lemma selects_simple_always: "selects_simple t"
  by (simp add: selects_simple_def str_truthy_def)

lemma dispatch_simple: "dispatch c inp = simple_branch c inp"
  by (simp add: dispatch_def selects_simple_always)

lemma simple_branch_eq:
  "simple_branch c inp =
     (case evidential_call c inp of
        Inl e \<Rightarrow> Inl e
      | Inr (out, hh) \<Rightarrow>
        (case simple_sigma2 out of
           Inl e \<Rightarrow> Inl e
         | Inr s2 \<Rightarrow>
           (case simple_var out s2 of
              Inl e \<Rightarrow> Inl e
            | Inr v \<Rightarrow>
                Inr (c\<lparr>last_energy := Some (out_energy out),
                       last_charges := Some (out_charges out),
                       last_forces := Some (out_forces out),
                       last_hessian := Some hh,
                       sigma2 := Some s2, variance := Some v\<rparr>))))"
proof (cases "hessian_active c")
  case True
  show ?thesis
  proof (cases "energy_forces_and_hessian_evidential (model c) inp")
    case (Inl e)
    with True show ?thesis
      by (simp add: simple_branch_def call_evidential_def evidential_call_def)
  next
    case (Inr r)
    obtain out H where r: "r = (out, H)" by (cases r)
    show ?thesis
    proof (cases "simple_sigma2 out")
      case (Inl e)
      with True Inr r show ?thesis
        by (simp add: simple_branch_def call_evidential_def evidential_call_def)
    next
      case s2: (Inr s2)
      show ?thesis
      proof (cases "simple_var out s2")
        case (Inl e)
        with True Inr r s2 show ?thesis
          by (simp add: simple_branch_def call_evidential_def evidential_call_def)
      next
        case v: (Inr v)
        with True Inr r s2 show ?thesis
          by (simp add: simple_branch_def call_evidential_def evidential_call_def Let_def)
      qed
    qed
  qed
next
  case False
  show ?thesis
  proof (cases "energy_forces_and_others_evidential (model c) inp")
    case (Inl e)
    with False show ?thesis
      by (simp add: simple_branch_def call_evidential_def evidential_call_def)
  next
    case (Inr out)
    show ?thesis
    proof (cases "simple_sigma2 out")
      case (Inl e)
      with False Inr show ?thesis
        by (simp add: simple_branch_def call_evidential_def evidential_call_def)
    next
      case s2: (Inr s2)
      show ?thesis
      proof (cases "simple_var out s2")
        case (Inl e)
        with False Inr s2 show ?thesis
          by (simp add: simple_branch_def call_evidential_def evidential_call_def)
      next
        case v: (Inr v)
        with False Inr s2 show ?thesis
          by (simp add: simple_branch_def call_evidential_def evidential_call_def Let_def)
      qed
    qed
  qed
qed


lemma calculate_eq:
  "calculate E c a =
     (case find_neighbors E c a of
        Inl e \<Rightarrow> Inl e
      | Inr nb \<Rightarrow>
        (case evidential_call (c\<lparr>self_R := positions a\<rparr>)
                (network_input (c\<lparr>self_R := positions a\<rparr>) nb) of
           Inl e \<Rightarrow> Inl e
         | Inr (out, hh) \<Rightarrow>
           (case simple_sigma2 out of
              Inl e \<Rightarrow> Inl e
            | Inr s2 \<Rightarrow>
              (case simple_var out s2 of
                 Inl e \<Rightarrow> Inl e
               | Inr v \<Rightarrow> Inr (evaluated_state c a out hh s2 v)))))"
proof (cases "find_neighbors E c a")
  case (Inl e)
  then show ?thesis by (simp add: calculate_def)
next
  case nb: (Inr nb)
  let ?c1 = "c\<lparr>self_R := positions a\<rparr>"
  show ?thesis
  proof (cases "evidential_call ?c1 (network_input ?c1 nb)")
    case (Inl e)
    with nb show ?thesis
      by (simp add: calculate_def dispatch_simple simple_branch_eq Let_def)
  next
    case (Inr r)
    obtain out hh where r: "r = (out, hh)" by (cases r)
    show ?thesis
    proof (cases "simple_sigma2 out")
      case (Inl e)
      with nb Inr r show ?thesis
        by (simp add: calculate_def dispatch_simple simple_branch_eq Let_def)
    next
      case s2: (Inr s2)
      show ?thesis
      proof (cases "simple_var out s2")
        case (Inl e)
        with nb Inr r s2 show ?thesis
          by (simp add: calculate_def dispatch_simple simple_branch_eq Let_def)
      next
        case v: (Inr v)
        with nb Inr r s2 show ?thesis
          by (simp add: calculate_def dispatch_simple simple_branch_eq Let_def
              store_results_def evaluated_state_def)
      qed
    qed
  qed
qed


lemma calculate_InrD:
  assumes "calculate E c a = Inr c'"
  shows "\<exists>nb out hh s2 v.
           find_neighbors E c a = Inr nb \<and>
           evidential_call (c\<lparr>self_R := positions a\<rparr>)
             (network_input (c\<lparr>self_R := positions a\<rparr>) nb) = Inr (out, hh) \<and>
           simple_sigma2 out = Inr s2 \<and> simple_var out s2 = Inr v \<and>
           c' = evaluated_state c a out hh s2 v"
  using assms unfolding calculate_eq
  by (auto split: sum.splits prod.splits)

lemma evidential_call_hessian:
  assumes "evidential_call c inp = Inr (out, hh)"
  shows "hessian_active c \<longleftrightarrow> hh \<noteq> None"
  using assms unfolding evidential_call_def
  by (auto split: if_splits sum.splits prod.splits)

lemma evaluated_state_fields:
  "last_atoms (evaluated_state c a out hh s2 v) = Some a"
  "n_calculate (evaluated_state c a out hh s2 v) = Suc (n_calculate c)"
  "hessian_active (evaluated_state c a out hh s2 v) = hessian_active c"
  "lr_cutoff (evaluated_state c a out hh s2 v) = lr_cutoff c"
  "sr_cutoff (evaluated_state c a out hh s2 v) = sr_cutoff c"
  "use_neighborlist (evaluated_state c a out hh s2 v) = use_neighborlist c"
  "model (evaluated_state c a out hh s2 v) = model c"
  "DER_type (evaluated_state c a out hh s2 v) = DER_type c"
  "last_energy (evaluated_state c a out hh s2 v) = Some (out_energy out)"
  "last_forces (evaluated_state c a out hh s2 v) = Some (out_forces out)"
  "last_hessian (evaluated_state c a out hh s2 v) = Some hh"
  "sigma2 (evaluated_state c a out hh s2 v) = Some s2"
  "variance (evaluated_state c a out hh s2 v) = Some v"
  "results (evaluated_state c a out hh s2 v) ''energy'' = Some (Energy (out_energy out))"
  "results (evaluated_state c a out hh s2 v) ''hessian'' =
     Some (case hh of None \<Rightarrow> PyNone | Some H \<Rightarrow> Hessian H)"
  by (simp_all add: evaluated_state_def)

lemma calculation_required_cases:
  "calculation_required c a \<longleftrightarrow>
     (case last_atoms c of
        None \<Rightarrow> True
      | Some l \<Rightarrow> positions a \<noteq> positions l \<or> numbers a \<noteq> numbers l \<or>
                  cell a \<noteq> cell l \<or> pbc a \<noteq> pbc l \<or> has_nan a)"
proof (cases "last_atoms c")
  case None
  then show ?thesis by (simp add: calculation_required_def)
next
  case (Some l)
  have "a = l \<longleftrightarrow>
        positions a = positions l \<and> numbers a = numbers l \<and> cell a = cell l \<and> pbc a = pbc l"
    by (cases a, cases l) auto
  with Some show ?thesis
    by (auto simp: calculation_required_def atoms_ne_def atoms_eq_iff)
qed

lemma calculate_facts:
  assumes "calculate E c a = Inr c'"
  shows "last_atoms c' = Some a" "n_calculate c' = Suc (n_calculate c)"
    "hessian_active c' = hessian_active c" "lr_cutoff c' = lr_cutoff c"
    "use_neighborlist c' = use_neighborlist c"
    "\<exists>e. last_energy c' = Some e \<and> results c' ''energy'' = Some (Energy e)"
    "\<exists>f. last_forces c' = Some f" "\<exists>s. sigma2 c' = Some s" "\<exists>v. variance c' = Some v"
    "\<exists>h. last_hessian c' = Some h \<and> (hessian_active c \<longleftrightarrow> h \<noteq> None) \<and>
         results c' ''hessian'' = Some (case h of None \<Rightarrow> PyNone | Some H \<Rightarrow> Hessian H)"
proof -
  from calculate_InrD[OF assms] obtain nb out hh s2 v where
    ev: "evidential_call (c\<lparr>self_R := positions a\<rparr>)
           (network_input (c\<lparr>self_R := positions a\<rparr>) nb) = Inr (out, hh)"
    and c': "c' = evaluated_state c a out hh s2 v"
    by blast
  from evidential_call_hessian[OF ev] have hh: "hessian_active c \<longleftrightarrow> hh \<noteq> None" by simp
  show "last_atoms c' = Some a" "n_calculate c' = Suc (n_calculate c)"
    "hessian_active c' = hessian_active c" "lr_cutoff c' = lr_cutoff c"
    "use_neighborlist c' = use_neighborlist c"
    "\<exists>e. last_energy c' = Some e \<and> results c' ''energy'' = Some (Energy e)"
    "\<exists>f. last_forces c' = Some f" "\<exists>s. sigma2 c' = Some s" "\<exists>v. variance c' = Some v"
    by (simp_all add: c' evaluated_state_fields)
  show "\<exists>h. last_hessian c' = Some h \<and> (hessian_active c \<longleftrightarrow> h \<noteq> None) \<and>
         results c' ''hessian'' = Some (case h of None \<Rightarrow> PyNone | Some H \<Rightarrow> Hessian H)"
    using hh by (simp add: c' evaluated_state_fields)
qed

lemma recompute_if_required_recomputed:
  assumes "recompute_if_required E c a = Inr c'"
  shows "recomputed E c a c'"
  using assms calculate_facts(2)[of E c a c']
  by (cases "calculation_required c a") (simp_all add: recompute_if_required_def recomputed_def)

lemma recomputed_cached:
  assumes "recomputed E c a c'"
  shows "last_atoms c' = Some a" "calculation_required c' a \<longleftrightarrow> has_nan a"
proof -
  show "last_atoms c' = Some a"
  proof (cases "calculation_required c a")
    case True
    with assms have "calculate E c a = Inr c'" by (simp add: recomputed_def)
    then show ?thesis by (rule calculate_facts(1))
  next
    case False
    with assms have "c' = c" by (simp add: recomputed_def)
    with False show ?thesis by (simp add: calculation_required_iff)
  qed
  then show "calculation_required c' a \<longleftrightarrow> has_nan a" by (simp add: calculation_required_iff)
qed

lemma accessors_recompute:
  "get_potential_energy E c a = Inr (c', v1) \<Longrightarrow> recomputed E c a c'"
  "get_potential_energy_and_uncertainty E c a = Inr (c', v2) \<Longrightarrow> recomputed E c a c'"
  "get_potential_energy_uncertainty_and_forces E c a = Inr (c', v3) \<Longrightarrow> recomputed E c a c'"
  "get_forces E c a = Inr (c', v4) \<Longrightarrow> recomputed E c a c'"
  "get_hessian E c a = Inr (c', v5) \<Longrightarrow> recomputed E c a c'"
  unfolding get_potential_energy_def get_potential_energy_and_uncertainty_def
    get_potential_energy_uncertainty_and_forces_def get_forces_def get_hessian_def
  by (auto split: sum.splits option.splits dest: recompute_if_required_recomputed)

lemma recomputed_reachable:
  assumes "reachable E lr hess c" and "recomputed E c a c'"
  shows "reachable E lr hess c'"
proof (cases "calculation_required c a")
  case True
  with assms(2) have "calculate E c a = Inr c'" by (simp add: recomputed_def)
  with assms(1) show ?thesis by (rule reachable.evaluated)
next
  case False
  with assms show ?thesis by (simp add: recomputed_def)
qed

subsection \<open>Evaluations in the concrete environment\<close>

lemma demo_calculate:
  assumes "model c = demo_network al" "\<not> hessian_active c" "\<not> use_neighborlist c" "\<not> any_pbc a"
  shows "calculate E c a =
     Inr (evaluated_state c a (demo_out al) None [np_div 4 (al - 1)]
            [np_mul (np_div 1 2) (np_div 4 (al - 1))])"
  using assms
  by (simp add: calculate_eq find_neighbors_def evidential_call_def demo_network_fields
      simple_sigma2_def simple_var_def broadcast_def demo_out_fields del: np_div.simps)

lemma demo_calc_fields:
  "model (demo_calc tag al) = demo_network al" "\<not> hessian_active (demo_calc tag al)"
  "\<not> use_neighborlist (demo_calc tag al)" "last_atoms (demo_calc tag al) = None"
  "n_calculate (demo_calc tag al) = 1" "lr_cutoff (demo_calc tag al) = None"
  "DER_type (demo_calc tag al) = tag" "sr_cutoff (demo_calc tag al) = 10"
  by (simp_all add: demo_calc_def)

lemma demo_atoms_free:
  "\<not> any_pbc h2" "\<not> any_pbc h2_stretched" "any_pbc h2_periodic"
  "positions h2 \<noteq> positions h2_stretched" "\<not> any_pbc h2_nan"
  by (simp_all add: any_pbc_def h2_def h2_stretched_def h2_periodic_def h2_nan_def)

lemma demo_atoms_nan:
  "\<not> has_nan h2" "\<not> has_nan h2_stretched" "has_nan h2_nan"
  by (simp_all add: has_nan_def coord3_nan_def h2_def h2_stretched_def h2_nan_def)

lemma demo_evaluated_fields:
  "model (demo_evaluated c a) = model c" "hessian_active (demo_evaluated c a) = hessian_active c"
  "use_neighborlist (demo_evaluated c a) = use_neighborlist c"
  "last_atoms (demo_evaluated c a) = Some a"
  "n_calculate (demo_evaluated c a) = Suc (n_calculate c)"
  by (simp_all add: demo_evaluated_def evaluated_state_fields)

lemma get_potential_energy_demo:
  assumes "model c = demo_network al" "\<not> hessian_active c" "\<not> use_neighborlist c" "\<not> any_pbc a"
    and "calculation_required c a"
  shows "get_potential_energy E c a =
     Inr (evaluated_state c a (demo_out al) None [np_div 4 (al - 1)]
            [np_mul (np_div 1 2) (np_div 4 (al - 1))], Energy [- 1])"
  using assms(5) demo_calculate[OF assms(1-4), of E]
  by (simp add: get_potential_energy_def recompute_if_required_def evaluated_state_fields
      demo_out_fields del: np_div.simps)

subsection \<open>The cache\<close>

lemma get_potential_energy_demo3:
  assumes "model c = demo_network 3" "\<not> hessian_active c" "\<not> use_neighborlist c" "\<not> any_pbc a"
    and "calculation_required c a"
  shows "get_potential_energy E c a = Inr (demo_evaluated c a, Energy [- 1])"
  using get_potential_energy_demo[OF assms, of E] by (simp add: demo_evaluated_def)

lemma demo_evaluated_energy: "results (demo_evaluated c a) ''energy'' = Some (Energy [- 1])"
  by (simp add: demo_evaluated_def evaluated_state_fields demo_out_fields)

lemma two_configurations_two_runs:
  assumes req: "calculation_required c a" and ne: "a \<noteq> b"
    and g1: "get_potential_energy E c a = Inr (c1, v1)"
    and g2: "get_potential_energy E c1 b = Inr (c2, v2)"
  shows "n_calculate c2 = n_calculate c + 2"
proof -
  have r1: "recomputed E c a c1" using g1 by (rule accessors_recompute(1))
  have r2: "recomputed E c1 b c2" using g2 by (rule accessors_recompute(1))
  from req r1 have n1: "n_calculate c1 = Suc (n_calculate c)" by (simp add: recomputed_def)
  from ne recomputed_cached(1)[OF r1] have "calculation_required c1 b"
    by (simp add: calculation_required_iff)
  with r2 have "n_calculate c2 = Suc (n_calculate c1)" by (simp add: recomputed_def)
  with n1 show ?thesis by simp
qed

lemma same_configuration_one_run:
  assumes nn: "\<not> has_nan a" and req: "calculation_required c a"
    and g1: "get_potential_energy E c a = Inr (c1, v1)"
    and g2: "get_potential_energy E c1 a = Inr (c2, v2)"
  shows "n_calculate c2 = n_calculate c + 1 \<and> c2 = c1 \<and> v2 = v1"
proof -
  have r1: "recomputed E c a c1" using g1 by (rule accessors_recompute(1))
  from req r1 have n1: "n_calculate c1 = Suc (n_calculate c)"
    and c1: "calculate E c a = Inr c1" by (simp_all add: recomputed_def)
  from recomputed_cached(2)[OF r1] nn have nr: "\<not> calculation_required c1 a" by simp
  from req g1 c1 have e1: "results c1 ''energy'' = Some v1"
    by (auto simp: get_potential_energy_def recompute_if_required_def split: option.splits)
  from g2 nr e1 have "c2 = c1 \<and> v2 = v1"
    by (simp add: get_potential_energy_def recompute_if_required_def)
  with n1 show ?thesis by simp
qed

lemma nan_configuration_two_runs:
  assumes nan: "has_nan a"
    and g1: "get_potential_energy E c a = Inr (c1, v1)"
    and g2: "get_potential_energy E c1 a = Inr (c2, v2)"
  shows "n_calculate c2 = n_calculate c + 2"
proof -
  have r1: "recomputed E c a c1" using g1 by (rule accessors_recompute(1))
  have r2: "recomputed E c1 a c2" using g2 by (rule accessors_recompute(1))
  from nan have req: "calculation_required c a" and req1: "calculation_required c1 a"
    by (simp_all add: calculation_required_iff)
  from req r1 have n1: "n_calculate c1 = Suc (n_calculate c)" by (simp add: recomputed_def)
  from req1 r2 have "n_calculate c2 = Suc (n_calculate c1)" by (simp add: recomputed_def)
  with n1 show ?thesis by simp
qed

lemma atoms_differ:
  "positions a \<noteq> positions b \<or> numbers a \<noteq> numbers b \<or> cell a \<noteq> cell b \<or> pbc a \<noteq> pbc b
   \<Longrightarrow> a \<noteq> (b :: atoms)"
  by auto

text \<open>
  Claim C1, as amended. calculation_required is true exactly when no configuration is
  cached, or the queried one differs from the cached one in its positions, atomic
  numbers, cell or periodic flags, or the queried one holds a NaN (a NaN entry is equal
  to nothing, the cached copy of itself included). Every accessor that returns has run
  calculate once exactly when the predicate was true, and otherwise left the state
  alone. So, from a state that needs a calculation for \<open>a\<close>, the energy of \<open>a\<close> and then
  of a different \<open>b\<close> is two runs of calculate; the energy of \<open>a\<close> twice is one run when
  \<open>a\<close> holds no NaN, the second call returning the cached value and the same state; and
  it is two runs when \<open>a\<close> holds a NaN.
\<close>

theorem cache_gates_recomputation:
  "(calculation_required c a \<longleftrightarrow>
      (case last_atoms c of
         None \<Rightarrow> True
       | Some l \<Rightarrow> positions a \<noteq> positions l \<or> numbers a \<noteq> numbers l \<or>
                   cell a \<noteq> cell l \<or> pbc a \<noteq> pbc l \<or> has_nan a)) \<and>
   (\<forall>c' v. get_potential_energy E c a = Inr (c', v) \<longrightarrow> recomputed E c a c') \<and>
   (\<forall>c' v. get_potential_energy_and_uncertainty E c a = Inr (c', v) \<longrightarrow> recomputed E c a c') \<and>
   (\<forall>c' v. get_potential_energy_uncertainty_and_forces E c a = Inr (c', v) \<longrightarrow>
      recomputed E c a c') \<and>
   (\<forall>c' v. get_forces E c a = Inr (c', v) \<longrightarrow> recomputed E c a c') \<and>
   (\<forall>c' v. get_hessian E c a = Inr (c', v) \<longrightarrow> recomputed E c a c') \<and>
   (\<forall>b c1 v1 c2 v2.
      calculation_required c a \<and>
      (positions a \<noteq> positions b \<or> numbers a \<noteq> numbers b \<or> cell a \<noteq> cell b \<or> pbc a \<noteq> pbc b) \<and>
      get_potential_energy E c a = Inr (c1, v1) \<and>
      get_potential_energy E c1 b = Inr (c2, v2) \<longrightarrow>
      n_calculate c2 = n_calculate c + 2) \<and>
   (\<forall>c1 v1 c2 v2.
      \<not> has_nan a \<and> calculation_required c a \<and>
      get_potential_energy E c a = Inr (c1, v1) \<and>
      get_potential_energy E c1 a = Inr (c2, v2) \<longrightarrow>
      n_calculate c2 = n_calculate c + 1 \<and> c2 = c1 \<and> v2 = v1) \<and>
   (\<forall>c1 v1 c2 v2.
      has_nan a \<and>
      get_potential_energy E c a = Inr (c1, v1) \<and>
      get_potential_energy E c1 a = Inr (c2, v2) \<longrightarrow>
      calculation_required c a \<and> calculation_required c1 a \<and>
      n_calculate c2 = n_calculate c + 2)"
proof -
  have p1: "calculation_required c a \<longleftrightarrow>
      (case last_atoms c of
         None \<Rightarrow> True
       | Some l \<Rightarrow> positions a \<noteq> positions l \<or> numbers a \<noteq> numbers l \<or>
                   cell a \<noteq> cell l \<or> pbc a \<noteq> pbc l \<or> has_nan a)"
    by (rule calculation_required_cases)
  have p2: "\<forall>c' v. get_potential_energy E c a = Inr (c', v) \<longrightarrow> recomputed E c a c'"
    using accessors_recompute(1) by fast
  have p3: "\<forall>c' v. get_potential_energy_and_uncertainty E c a = Inr (c', v) \<longrightarrow> recomputed E c a c'"
    using accessors_recompute(2) by fast
  have p4: "\<forall>c' v. get_potential_energy_uncertainty_and_forces E c a = Inr (c', v) \<longrightarrow>
      recomputed E c a c'"
    using accessors_recompute(3) by fast
  have p5: "\<forall>c' v. get_forces E c a = Inr (c', v) \<longrightarrow> recomputed E c a c'"
    using accessors_recompute(4) by fast
  have p6: "\<forall>c' v. get_hessian E c a = Inr (c', v) \<longrightarrow> recomputed E c a c'"
    using accessors_recompute(5) by fast
  have p7: "\<forall>b c1 v1 c2 v2.
      calculation_required c a \<and>
      (positions a \<noteq> positions b \<or> numbers a \<noteq> numbers b \<or> cell a \<noteq> cell b \<or> pbc a \<noteq> pbc b) \<and>
      get_potential_energy E c a = Inr (c1, v1) \<and>
      get_potential_energy E c1 b = Inr (c2, v2) \<longrightarrow>
      n_calculate c2 = n_calculate c + 2"
  proof (intro allI impI, elim conjE)
    fix b c1 v1 c2 v2
    assume req: "calculation_required c a"
      and d: "positions a \<noteq> positions b \<or> numbers a \<noteq> numbers b \<or> cell a \<noteq> cell b \<or> pbc a \<noteq> pbc b"
      and g1: "get_potential_energy E c a = Inr (c1, v1)"
      and g2: "get_potential_energy E c1 b = Inr (c2, v2)"
    from d have "a \<noteq> b" by (rule atoms_differ)
    with req show "n_calculate c2 = n_calculate c + 2"
      using g1 g2 by (rule two_configurations_two_runs)
  qed
  have p8: "\<forall>c1 v1 c2 v2.
      \<not> has_nan a \<and> calculation_required c a \<and>
      get_potential_energy E c a = Inr (c1, v1) \<and>
      get_potential_energy E c1 a = Inr (c2, v2) \<longrightarrow>
      n_calculate c2 = n_calculate c + 1 \<and> c2 = c1 \<and> v2 = v1"
  proof (intro allI impI, elim conjE)
    fix c1 v1 c2 v2
    assume "\<not> has_nan a" "calculation_required c a" "get_potential_energy E c a = Inr (c1, v1)"
      "get_potential_energy E c1 a = Inr (c2, v2)"
    then show "n_calculate c2 = n_calculate c + 1 \<and> c2 = c1 \<and> v2 = v1"
      by (rule same_configuration_one_run)
  qed
  have p9: "\<forall>c1 v1 c2 v2.
      has_nan a \<and>
      get_potential_energy E c a = Inr (c1, v1) \<and>
      get_potential_energy E c1 a = Inr (c2, v2) \<longrightarrow>
      calculation_required c a \<and> calculation_required c1 a \<and>
      n_calculate c2 = n_calculate c + 2"
  proof (intro allI impI, elim conjE)
    fix c1 v1 c2 v2
    assume nan: "has_nan a" and g1: "get_potential_energy E c a = Inr (c1, v1)"
      and g2: "get_potential_energy E c1 a = Inr (c2, v2)"
    from nan have r: "calculation_required c a" and r1: "calculation_required c1 a"
      by (simp_all add: calculation_required_iff)
    from nan g1 g2 have n: "n_calculate c2 = n_calculate c + 2"
      by (rule nan_configuration_two_runs)
    from r r1 n
    show "calculation_required c a \<and> calculation_required c1 a \<and>
      n_calculate c2 = n_calculate c + 2"
      by (intro conjI)
  qed
  from p1 p2 p3 p4 p5 p6 p7 p8 p9 show ?thesis by (intro conjI)
qed

theorem cache_gates_recomputation_witness:
  "calculation_required (demo_calc (Some ''simple'') 3) h2 \<and>
   positions h2 \<noteq> positions h2_stretched \<and>
   get_potential_energy (demo_env (Some ''simple'') 3) (demo_calc (Some ''simple'') 3) h2
     = Inr (demo_evaluated (demo_calc (Some ''simple'') 3) h2, Energy [- 1]) \<and>
   get_potential_energy (demo_env (Some ''simple'') 3)
       (demo_evaluated (demo_calc (Some ''simple'') 3) h2) h2_stretched
     = Inr (demo_evaluated (demo_evaluated (demo_calc (Some ''simple'') 3) h2) h2_stretched,
            Energy [- 1]) \<and>
   n_calculate (demo_evaluated (demo_evaluated (demo_calc (Some ''simple'') 3) h2) h2_stretched)
     = n_calculate (demo_calc (Some ''simple'') 3) + 2 \<and>
   get_potential_energy (demo_env (Some ''simple'') 3)
       (demo_evaluated (demo_calc (Some ''simple'') 3) h2) h2
     = Inr (demo_evaluated (demo_calc (Some ''simple'') 3) h2, Energy [- 1]) \<and>
   n_calculate (demo_evaluated (demo_calc (Some ''simple'') 3) h2)
     = n_calculate (demo_calc (Some ''simple'') 3) + 1"
proof -
  let ?E = "demo_env (Some ''simple'') 3"
  let ?c = "demo_calc (Some ''simple'') 3"
  let ?c1 = "demo_evaluated ?c h2"
  let ?c2 = "demo_evaluated ?c1 h2_stretched"
  have req: "calculation_required ?c h2"
    by (simp add: calculation_required_iff demo_calc_fields)
  have d: "positions h2 \<noteq> positions h2_stretched" by (rule demo_atoms_free(4))
  have nn: "\<not> has_nan h2" by (rule demo_atoms_nan(1))
  have g1: "get_potential_energy ?E ?c h2 = Inr (?c1, Energy [- 1])"
    by (rule get_potential_energy_demo3) (simp_all add: demo_calc_fields demo_atoms_free req)
  have "h2 \<noteq> h2_stretched" using d by (intro atoms_differ disjI1)
  then have "calculation_required ?c1 h2_stretched"
    by (simp add: calculation_required_iff demo_evaluated_fields)
  then have g2: "get_potential_energy ?E ?c1 h2_stretched = Inr (?c2, Energy [- 1])"
    by (intro get_potential_energy_demo3)
       (simp_all only: demo_evaluated_fields demo_calc_fields demo_atoms_free not_False_eq_True)
  have "\<not> calculation_required ?c1 h2"
    using nn by (simp add: calculation_required_iff demo_evaluated_fields)
  then have g3: "get_potential_energy ?E ?c1 h2 = Inr (?c1, Energy [- 1])"
    by (simp add: get_potential_energy_def recompute_if_required_def demo_evaluated_energy)
  note th7 = cache_gates_recomputation[of ?c h2 ?E, THEN conjunct2, THEN conjunct2,
      THEN conjunct2, THEN conjunct2, THEN conjunct2, THEN conjunct2, THEN conjunct1,
      rule_format, of h2_stretched ?c1 "Energy [- 1]" ?c2 "Energy [- 1]"]
  note th8 = cache_gates_recomputation[of ?c h2 ?E, THEN conjunct2, THEN conjunct2,
      THEN conjunct2, THEN conjunct2, THEN conjunct2, THEN conjunct2, THEN conjunct2,
      THEN conjunct1, rule_format, of ?c1 "Energy [- 1]" ?c1 "Energy [- 1]"]
  have n2: "n_calculate ?c2 = n_calculate ?c + 2"
    by (rule th7) (intro conjI req disjI1 d g1 g2)
  have "n_calculate ?c1 = n_calculate ?c + 1 \<and> ?c1 = ?c1 \<and> Energy [- 1] = Energy [- 1]"
    by (rule th8) (intro conjI nn req g1 g3)
  then have n1: "n_calculate ?c1 = n_calculate ?c + 1" by (rule conjunct1)
  show ?thesis
    by (intro conjI req d g1 g2 n2 g3 n1)
qed

text \<open>
  Claim C1, as stated, fails on a configuration that holds a NaN: after its energy has
  been computed and the configuration cached, calculation_required is still true for
  it, and asking for its energy a second time runs calculate a second time.
\<close>

theorem nan_configuration_is_recomputed:
  "get_potential_energy (demo_env (Some ''simple'') 3) (demo_calc (Some ''simple'') 3) h2_nan
     = Inr (demo_evaluated (demo_calc (Some ''simple'') 3) h2_nan, Energy [- 1]) \<and>
   last_atoms (demo_evaluated (demo_calc (Some ''simple'') 3) h2_nan) = Some h2_nan \<and>
   calculation_required (demo_evaluated (demo_calc (Some ''simple'') 3) h2_nan) h2_nan \<and>
   get_potential_energy (demo_env (Some ''simple'') 3)
       (demo_evaluated (demo_calc (Some ''simple'') 3) h2_nan) h2_nan
     = Inr (demo_evaluated (demo_evaluated (demo_calc (Some ''simple'') 3) h2_nan) h2_nan,
            Energy [- 1]) \<and>
   n_calculate (demo_evaluated (demo_evaluated (demo_calc (Some ''simple'') 3) h2_nan) h2_nan)
     = n_calculate (demo_calc (Some ''simple'') 3) + 2"
proof -
  let ?E = "demo_env (Some ''simple'') 3"
  let ?c = "demo_calc (Some ''simple'') 3"
  let ?c1 = "demo_evaluated ?c h2_nan"
  let ?c2 = "demo_evaluated ?c1 h2_nan"
  have req: "calculation_required ?c h2_nan"
    by (simp add: calculation_required_def demo_calc_fields)
  have g1: "get_potential_energy ?E ?c h2_nan = Inr (?c1, Energy [- 1])"
    by (rule get_potential_energy_demo3) (simp_all add: demo_calc_fields demo_atoms_free req)
  have l: "last_atoms ?c1 = Some h2_nan" by (rule demo_evaluated_fields)
  have "atoms_ne h2_nan h2_nan"
    by (simp add: atoms_ne_def atoms_eq_def h2_nan_def coord3_eq_def)
  then have req1: "calculation_required ?c1 h2_nan"
    by (simp add: calculation_required_def l)
  then have g2: "get_potential_energy ?E ?c1 h2_nan = Inr (?c2, Energy [- 1])"
    by (intro get_potential_energy_demo3)
       (simp_all only: demo_evaluated_fields demo_calc_fields demo_atoms_free not_False_eq_True)
  have n: "n_calculate ?c2 = n_calculate ?c + 2"
    by (simp add: demo_evaluated_fields)
  show ?thesis by (intro conjI g1 l req1 g2 n)
qed

subsection \<open>Construction\<close>

lemma init_InrD:
  assumes "init E a ckpt config charge lr_cut hessian = Inr c"
  shows "\<exists>ar i j c1.
           parse_args E config = Inr ar \<and> get_indices a = Inr (i, j) \<and>
           calculate E (init_attributes E ar a ckpt charge lr_cut hessian i j) a = Inr c1 \<and>
           c = c1\<lparr>last_atoms := None, results := Map.empty\<rparr>"
  using assms unfolding init_def
  by (auto split: sum.splits prod.splits)

lemma init_attributes_fields:
  "lr_cutoff (init_attributes E ar a ckpt charge lr_cut hessian i j) = lr_cut"
  "use_neighborlist (init_attributes E ar a ckpt charge lr_cut hessian i j) = (lr_cut \<noteq> None)"
  "hessian_active (init_attributes E ar a ckpt charge lr_cut hessian i j) = hessian"
  "n_calculate (init_attributes E ar a ckpt charge lr_cut hessian i j) = 0"
  "last_atoms (init_attributes E ar a ckpt charge lr_cut hessian i j) = None"
  by (cases lr_cut; simp add: init_attributes_def)+

text \<open>
  Claim C8. A construction that completes has run calculate once, on the initial
  configuration and from a state with no cached configuration, and then dropped the
  cached configuration: afterwards calculation_required is true for every configuration.
\<close>

theorem init_leaves_no_cache:
  assumes "init E a ckpt config charge lr_cut hessian = Inr c"
  shows "last_atoms c = None \<and> n_calculate c = 1 \<and> (\<forall>b. calculation_required c b) \<and>
         (\<exists>c0 c1. last_atoms c0 = None \<and> n_calculate c0 = 0 \<and> calculate E c0 a = Inr c1 \<and>
                   last_atoms c1 = Some a \<and> c = c1\<lparr>last_atoms := None, results := Map.empty\<rparr>)"
proof -
  from init_InrD[OF assms] obtain ar i j c1 where
    calc: "calculate E (init_attributes E ar a ckpt charge lr_cut hessian i j) a = Inr c1"
    and c: "c = c1\<lparr>last_atoms := None, results := Map.empty\<rparr>"
    by blast
  let ?c0 = "init_attributes E ar a ckpt charge lr_cut hessian i j"
  from calculate_facts(1,2)[OF calc] have l1: "last_atoms c1 = Some a"
    and n1: "n_calculate c1 = 1" by (simp_all add: init_attributes_fields)
  have la: "last_atoms c = None" and n: "n_calculate c = 1" using n1 by (simp_all add: c)
  from la have req: "\<forall>b. calculation_required c b" by (simp add: calculation_required_iff)
  have "last_atoms ?c0 = None \<and> n_calculate ?c0 = 0 \<and> calculate E ?c0 a = Inr c1 \<and>
        last_atoms c1 = Some a \<and> c = c1\<lparr>last_atoms := None, results := Map.empty\<rparr>"
    using calc l1 c by (simp add: init_attributes_fields)
  then have "\<exists>c0 c1. last_atoms c0 = None \<and> n_calculate c0 = 0 \<and> calculate E c0 a = Inr c1 \<and>
                   last_atoms c1 = Some a \<and> c = c1\<lparr>last_atoms := None, results := Map.empty\<rparr>"
    by (intro exI)
  with la n req show ?thesis by (intro conjI)
qed

theorem init_leaves_no_cache_witness:
  "init (demo_env (Some ''simple'') 3) h2 (Some ''ckpt'') ''config'' 0 None False
     = Inr (demo_calc (Some ''simple'') 3) \<and>
   last_atoms (demo_calc (Some ''simple'') 3) = None \<and>
   n_calculate (demo_calc (Some ''simple'') 3) = 1 \<and>
   calculation_required (demo_calc (Some ''simple'') 3) h2_stretched"
proof -
  note i = init_demo[of "Some ''simple''" 3]
  note th = init_leaves_no_cache[OF i]
  have "last_atoms (demo_calc (Some ''simple'') 3) = None"
    using th by (rule conjunct1)
  moreover have "n_calculate (demo_calc (Some ''simple'') 3) = 1"
    using th[THEN conjunct2] by (rule conjunct1)
  moreover have "calculation_required (demo_calc (Some ''simple'') 3) h2_stretched"
    using th[THEN conjunct2, THEN conjunct2, THEN conjunct1] by (rule spec)
  ultimately show ?thesis using i by (intro conjI)
qed

subsection \<open>The Hessian flag\<close>

lemma reachable_invariant:
  assumes "reachable E lr hess c"
  shows "hessian_active c = hess \<and> lr_cutoff c = lr \<and> use_neighborlist c = (lr \<noteq> None) \<and>
         (\<not> hess \<longrightarrow> last_hessian c = Some None)"
  using assms
proof (induction rule: reachable.induct)
  case (constructed a ckpt config charge c)
  from init_InrD[OF constructed] obtain ar i j c1 where
    calc: "calculate E (init_attributes E ar a ckpt charge lr hess i j) a = Inr c1"
    and c: "c = c1\<lparr>last_atoms := None, results := Map.empty\<rparr>"
    by blast
  from calculate_facts(3,4,5,10)[OF calc] show ?case
    by (auto simp: c init_attributes_fields)
next
  case (evaluated c a c')
  from calculate_facts(3,4,5,10)[OF evaluated.hyps(2)] evaluated.IH show ?case
    by auto
qed

lemma get_hessian_cases:
  "get_hessian E c a =
     (if calculation_required c a then
        (case calculate E c a of
           Inl e \<Rightarrow> Inl e
         | Inr c' \<Rightarrow> (case last_hessian c' of None \<Rightarrow> Inl AttributeError | Some h \<Rightarrow> Inr (c', h)))
      else (case last_hessian c of None \<Rightarrow> Inl AttributeError | Some h \<Rightarrow> Inr (c, h)))"
  by (simp add: get_hessian_def recompute_if_required_def)

text \<open>
  Claim C9. In every state of a calculator constructed with the Hessian flag false, the
  stored Hessian is Python's None; every run of calculate that completes stores None
  again, also in the results dictionary; get_hessian returns None whenever it returns;
  and it raises nothing of its own: when it fails, a calculation was required and it is
  calculate that failed, with that error.
\<close>

theorem hessian_disabled_returns_none:
  assumes "reachable E lr False c"
  shows "\<not> hessian_active c \<and> last_hessian c = Some None \<and>
         (\<forall>a c'. calculate E c a = Inr c' \<longrightarrow>
            last_hessian c' = Some None \<and> results c' ''hessian'' = Some PyNone) \<and>
         (\<forall>a c' h. get_hessian E c a = Inr (c', h) \<longrightarrow> h = None) \<and>
         (\<forall>a e. get_hessian E c a = Inl e \<longrightarrow>
            calculation_required c a \<and> calculate E c a = Inl e) \<and>
         (\<forall>a c'. calculate E c a = Inr c' \<longrightarrow> get_hessian E c a = Inr (c', None) \<or>
            get_hessian E c a = Inr (c, None))"
proof -
  from reachable_invariant[OF assms] have h: "\<not> hessian_active c"
    and l: "last_hessian c = Some None" by simp_all
  have calc: "last_hessian c' = Some None \<and> results c' ''hessian'' = Some PyNone"
    if "calculate E c a = Inr c'" for a c'
    using calculate_facts(10)[OF that] h by auto
  have p3: "\<forall>a c'. calculate E c a = Inr c' \<longrightarrow>
            last_hessian c' = Some None \<and> results c' ''hessian'' = Some PyNone"
    using calc by blast
  have ok: "h' = None" if "get_hessian E c a = Inr (c', h')" for a c' h'
  proof (cases "calculation_required c a")
    case True
    with that obtain c1 where c1: "calculate E c a = Inr c1"
      by (cases "calculate E c a") (simp_all add: get_hessian_cases)
    with that True calc[OF c1] show ?thesis by (simp add: get_hessian_cases)
  next
    case False
    with that l show ?thesis by (simp add: get_hessian_cases)
  qed
  have p4: "\<forall>a c' h. get_hessian E c a = Inr (c', h) \<longrightarrow> h = None"
    using ok by blast
  have err: "calculation_required c a \<and> calculate E c a = Inl e"
    if "get_hessian E c a = Inl e" for a e
  proof (cases "calculation_required c a")
    case True
    show ?thesis
    proof (cases "calculate E c a")
      case (Inl e')
      with that True show ?thesis by (simp add: get_hessian_cases)
    next
      case (Inr c1)
      with that True calc[OF Inr] show ?thesis by (simp add: get_hessian_cases)
    qed
  next
    case False
    with that l show ?thesis by (simp add: get_hessian_cases)
  qed
  have p5: "\<forall>a e. get_hessian E c a = Inl e \<longrightarrow>
            calculation_required c a \<and> calculate E c a = Inl e"
    using err by blast
  have tot: "get_hessian E c a = Inr (c', None) \<or> get_hessian E c a = Inr (c, None)"
    if "calculate E c a = Inr c'" for a c'
    using that calc[OF that] l by (simp add: get_hessian_cases)
  have p6: "\<forall>a c'. calculate E c a = Inr c' \<longrightarrow> get_hessian E c a = Inr (c', None) \<or>
            get_hessian E c a = Inr (c, None)"
    using tot by blast
  from h l p3 p4 p5 p6 show ?thesis by (intro conjI)
qed

lemma demo_reachable: "reachable (demo_env tag al) None False (demo_calc tag al)"
  by (rule reachable.constructed[OF init_demo])

theorem hessian_disabled_returns_none_witness:
  "reachable (demo_env (Some ''simple'') 3) None False (demo_calc (Some ''simple'') 3) \<and>
   last_hessian (demo_calc (Some ''simple'') 3) = Some None \<and>
   (\<exists>c'. get_hessian (demo_env (Some ''simple'') 3) (demo_calc (Some ''simple'') 3) h2
           = Inr (c', None))"
proof -
  let ?E = "demo_env (Some ''simple'') 3"
  let ?c = "demo_calc (Some ''simple'') 3"
  note r = demo_reachable[of "Some ''simple''" 3]
  note th = hessian_disabled_returns_none[OF r]
  have l: "last_hessian ?c = Some None" using th[THEN conjunct2] by (rule conjunct1)
  let ?c1 = "evaluated_state ?c h2 (demo_out 3) None [np_div 4 (3 - 1)]
               [np_mul (np_div 1 2) (np_div 4 (3 - 1))]"
  have calc: "calculate ?E ?c h2 = Inr ?c1"
    by (rule demo_calculate) (simp_all add: demo_calc_fields demo_atoms_free)
  have req: "calculation_required ?c h2"
    by (simp add: calculation_required_iff demo_calc_fields)
  have "get_hessian ?E ?c h2 = Inr (?c1, None)"
    using calc req
    by (simp add: get_hessian_cases evaluated_state_fields del: np_div.simps)
  then have "\<exists>c'. get_hessian ?E ?c h2 = Inr (c', None)" by (rule exI)
  with r l show ?thesis by (intro conjI)
qed

subsection \<open>No long-range cutoff\<close>

lemma find_neighbors_periodic:
  assumes "any_pbc a"
  shows "find_neighbors E c a =
     (case neighbor_list E a (lr_cutoff c) of
        Inl e \<Rightarrow> Inl e
      | Inr (i, j, S) \<Rightarrow>
          (case neighbor_list E a (Some (sr_cutoff c)) of
             Inl e \<Rightarrow> Inl e
           | Inr (sr_i, sr_j, sr_S) \<Rightarrow>
               Inr (i, j, Some (np_dot S (cell a)), Some sr_i, Some sr_j,
                    Some (np_dot sr_S (cell a)))))"
  using assms by (simp add: find_neighbors_def)

lemma calculate_neighbors_fail:
  assumes "find_neighbors E c a = Inl e"
  shows "calculate E c a = Inl e"
  using assms by (simp add: calculate_def)

text \<open>
  Claim C10. In every state of a calculator constructed without a long-range cutoff the
  stored long-range cutoff is None and the neighbour-list flag is false. For a
  configuration with a periodic flag set, calculate still runs the neighbour search,
  first with that None as the cutoff: it uses neither the short-range cutoff in its
  place nor the static index. When the search raises on None, calculate raises the
  same error.
\<close>

theorem no_cutoff_periodic_query_fails:
  assumes "reachable E None hess c"
  shows "lr_cutoff c = None \<and> \<not> use_neighborlist c \<and>
         (\<forall>a. any_pbc a \<longrightarrow>
            find_neighbors E c a =
              (case neighbor_list E a None of
                 Inl e \<Rightarrow> Inl e
               | Inr (i, j, S) \<Rightarrow>
                   (case neighbor_list E a (Some (sr_cutoff c)) of
                      Inl e \<Rightarrow> Inl e
                    | Inr (sr_i, sr_j, sr_S) \<Rightarrow>
                        Inr (i, j, Some (np_dot S (cell a)), Some sr_i, Some sr_j,
                             Some (np_dot sr_S (cell a)))))) \<and>
         (\<forall>a e. any_pbc a \<and> neighbor_list E a None = Inl e \<longrightarrow> calculate E c a = Inl e)"
proof -
  from reachable_invariant[OF assms] have lr: "lr_cutoff c = None"
    and nl: "\<not> use_neighborlist c" by simp_all
  have fn: "find_neighbors E c a =
              (case neighbor_list E a None of
                 Inl e \<Rightarrow> Inl e
               | Inr (i, j, S) \<Rightarrow>
                   (case neighbor_list E a (Some (sr_cutoff c)) of
                      Inl e \<Rightarrow> Inl e
                    | Inr (sr_i, sr_j, sr_S) \<Rightarrow>
                        Inr (i, j, Some (np_dot S (cell a)), Some sr_i, Some sr_j,
                             Some (np_dot sr_S (cell a)))))"
    if "any_pbc a" for a
    using find_neighbors_periodic[OF that, of E c] by (simp only: lr)
  have fail: "calculate E c a = Inl e" if "any_pbc a \<and> neighbor_list E a None = Inl e" for a e
  proof -
    from that fn[of a] have "find_neighbors E c a = Inl e" by simp
    then show ?thesis by (rule calculate_neighbors_fail)
  qed
  from lr nl fn fail show ?thesis by blast
qed

theorem no_cutoff_periodic_query_fails_witness:
  "reachable (demo_env (Some ''simple'') 3) None False (demo_calc (Some ''simple'') 3) \<and>
   any_pbc h2_periodic \<and>
   neighbor_list (demo_env (Some ''simple'') 3) h2_periodic None = Inl TypeError \<and>
   lr_cutoff (demo_calc (Some ''simple'') 3) = None \<and>
   calculate (demo_env (Some ''simple'') 3) (demo_calc (Some ''simple'') 3) h2_periodic
     = Inl TypeError"
proof -
  let ?E = "demo_env (Some ''simple'') 3"
  let ?c = "demo_calc (Some ''simple'') 3"
  note r = demo_reachable[of "Some ''simple''" 3]
  note th = no_cutoff_periodic_query_fails[OF r]
  have p: "any_pbc h2_periodic" by (rule demo_atoms_free(3))
  have n: "neighbor_list ?E h2_periodic None = Inl TypeError" by (rule demo_env_fields(4))
  have l: "lr_cutoff ?c = None" using th by (rule conjunct1)
  have "calculate ?E ?c h2_periodic = Inl TypeError"
    by (rule th[THEN conjunct2, THEN conjunct2, THEN conjunct2, rule_format,
          of h2_periodic TypeError]) (intro conjI p n)
  with r p n l show ?thesis by (intro conjI)
qed


subsection \<open>The dispatch on the mode tag\<close>

text \<open>
  Claim C2. The condition of the first branch is true for every mode tag, because its
  second operand, a non-empty string, is true. So the dispatch is the first branch for
  every tag, \<open>'MD'\<close> and unknown tags included, and calculate is determined by the
  neighbour search and the evidential entry points alone: the molecular-dynamics entry
  points are never called.
\<close>

theorem dispatch_always_simple:
  "selects_simple t \<and>
   dispatch (c\<lparr>DER_type := t\<rparr>) inp = simple_branch (c\<lparr>DER_type := t\<rparr>) inp \<and>
   dispatch (c\<lparr>DER_type := Some ''MD''\<rparr>) inp = simple_branch (c\<lparr>DER_type := Some ''MD''\<rparr>) inp \<and>
   calculate E (c\<lparr>DER_type := t\<rparr>) a =
     (case find_neighbors E (c\<lparr>DER_type := t\<rparr>) a of
        Inl e \<Rightarrow> Inl e
      | Inr nb \<Rightarrow>
        (case evidential_call (c\<lparr>DER_type := t, self_R := positions a\<rparr>)
                (network_input (c\<lparr>DER_type := t, self_R := positions a\<rparr>) nb) of
           Inl e \<Rightarrow> Inl e
         | Inr (out, hh) \<Rightarrow>
           (case simple_sigma2 out of
              Inl e \<Rightarrow> Inl e
            | Inr s2 \<Rightarrow>
              (case simple_var out s2 of
                 Inl e \<Rightarrow> Inl e
               | Inr v \<Rightarrow> Inr (evaluated_state (c\<lparr>DER_type := t\<rparr>) a out hh s2 v)))))"
  by (intro conjI selects_simple_always dispatch_simple calculate_eq)

theorem dispatch_always_simple_witness:
  "selects_simple (Some ''MD'') \<and>
   calculate (demo_env (Some ''MD'') 3) (demo_calc (Some ''MD'') 3) h2 =
     Inr (evaluated_state (demo_calc (Some ''MD'') 3) h2 (demo_out 3) None [Fin 2] [Fin 1])"
proof -
  let ?E = "demo_env (Some ''MD'') 3"
  let ?c = "demo_calc (Some ''MD'') 3"
  note th = dispatch_always_simple[of "Some ''MD''" ?c _ ?E h2]
  have c: "?c\<lparr>DER_type := Some ''MD''\<rparr> = ?c" by (simp add: demo_calc_def)
  have s: "selects_simple (Some ''MD'')" using th by (rule conjunct1)
  have "calculate ?E ?c h2 =
     Inr (evaluated_state ?c h2 (demo_out 3) None [Fin 2] [Fin 1])"
    using th[THEN conjunct2, THEN conjunct2, THEN conjunct2]
    unfolding c
    by (simp add: find_neighbors_def evidential_call_def demo_calc_fields demo_atoms_free
        demo_network_fields simple_sigma2_def simple_var_def broadcast_def demo_out_fields)
  with s show ?thesis by (intro conjI)
qed

subsection \<open>No dispatch error\<close>

lemma dispatch_InlD:
  assumes "dispatch c inp = Inl e"
  shows "(selects_simple (DER_type c) \<and> simple_branch c inp = Inl e) \<or>
         (\<not> selects_simple (DER_type c) \<and> DER_type c = Some ''MD'' \<and>
          md_branch c (inp\<lparr>in_offsets := None, in_sr_idx_i := None, in_sr_idx_j := None,
                            in_sr_offsets := None\<rparr>) = Inl e)"
proof (cases "selects_simple (DER_type c)")
  case True
  with assms show ?thesis by (simp add: dispatch_def)
next
  case False
  show ?thesis
  proof (cases "DER_type c = Some ''MD''")
    case True
    with False assms show ?thesis by (simp add: dispatch_def)
  next
    case notmd: False
    with False assms show ?thesis by (simp add: dispatch_def)
  qed
qed

lemma calculate_InlD:
  assumes "calculate E c a = Inl e"
  shows "find_neighbors E c a = Inl e \<or>
         (\<exists>nb. find_neighbors E c a = Inr nb \<and>
            (dispatch (c\<lparr>self_R := positions a\<rparr>) (network_input (c\<lparr>self_R := positions a\<rparr>) nb)
               = Inl e \<or>
             (\<exists>c2. dispatch (c\<lparr>self_R := positions a\<rparr>)
                      (network_input (c\<lparr>self_R := positions a\<rparr>) nb) = Inr c2 \<and>
                   store_results c2 a = Inl e)))"
proof (cases "find_neighbors E c a")
  case (Inl e')
  with assms show ?thesis by (simp add: calculate_def)
next
  case nb: (Inr nb)
  let ?c1 = "c\<lparr>self_R := positions a\<rparr>"
  show ?thesis
  proof (cases "dispatch ?c1 (network_input ?c1 nb)")
    case (Inl e')
    with assms nb have "e' = e" by (simp add: calculate_def Let_def)
    with Inl nb show ?thesis by simp
  next
    case c2: (Inr c2)
    show ?thesis
    proof (cases "store_results c2 a")
      case (Inl e')
      with assms nb c2 have "e' = e" by (simp add: calculate_def Let_def)
      with Inl nb c2 show ?thesis by simp
    next
      case (Inr c3)
      with assms nb c2 show ?thesis by (simp add: calculate_def Let_def)
    qed
  qed
qed

text \<open>
  Claim C3, as amended. calculate has no dispatch error: the selection of the branch
  raises nothing. For every mode tag, known or not, an error of calculate is the error
  that the neighbour search raised on this configuration, or the error that the body of
  the selected branch raised on this run's input (the first branch when its condition
  held, the second when the first condition failed and the tag was \<open>'MD'\<close>), or the
  error raised after the dispatch has completed, while the results are stored.
\<close>

theorem no_dispatch_error:
  assumes "calculate E (c\<lparr>DER_type := t\<rparr>) a = Inl e"
  shows "find_neighbors E (c\<lparr>DER_type := t\<rparr>) a = Inl e \<or>
         (\<exists>nb. find_neighbors E (c\<lparr>DER_type := t\<rparr>) a = Inr nb \<and>
            ((selects_simple t \<and>
              simple_branch (c\<lparr>DER_type := t, self_R := positions a\<rparr>)
                (network_input (c\<lparr>DER_type := t, self_R := positions a\<rparr>) nb) = Inl e) \<or>
             (\<not> selects_simple t \<and> t = Some ''MD'' \<and>
              md_branch (c\<lparr>DER_type := t, self_R := positions a\<rparr>)
                ((network_input (c\<lparr>DER_type := t, self_R := positions a\<rparr>) nb)
                   \<lparr>in_offsets := None, in_sr_idx_i := None, in_sr_idx_j := None,
                    in_sr_offsets := None\<rparr>) = Inl e) \<or>
             (\<exists>c2. dispatch (c\<lparr>DER_type := t, self_R := positions a\<rparr>)
                      (network_input (c\<lparr>DER_type := t, self_R := positions a\<rparr>) nb) = Inr c2 \<and>
                   store_results c2 a = Inl e)))"
proof -
  let ?c = "c\<lparr>DER_type := t\<rparr>"
  let ?c1 = "c\<lparr>DER_type := t, self_R := positions a\<rparr>"
  have t: "DER_type ?c1 = t" by simp
  from calculate_InlD[OF assms] consider
    (search) "find_neighbors E ?c a = Inl e"
    | (branch) nb where "find_neighbors E ?c a = Inr nb"
        "dispatch ?c1 (network_input ?c1 nb) = Inl e"
    | (store) nb c2 where "find_neighbors E ?c a = Inr nb"
        "dispatch ?c1 (network_input ?c1 nb) = Inr c2" "store_results c2 a = Inl e"
    by blast
  then show ?thesis
  proof cases
    case search
    then show ?thesis by (rule disjI1)
  next
    case branch
    from dispatch_InlD[OF branch(2)]
    have "(selects_simple t \<and> simple_branch ?c1 (network_input ?c1 nb) = Inl e) \<or>
          (\<not> selects_simple t \<and> t = Some ''MD'' \<and>
           md_branch ?c1 ((network_input ?c1 nb)
               \<lparr>in_offsets := None, in_sr_idx_i := None, in_sr_idx_j := None,
                in_sr_offsets := None\<rparr>) = Inl e)"
      unfolding t .
    with branch(1) show ?thesis by blast
  next
    case store
    then show ?thesis by blast
  qed
qed

lemma demo_find_neighbors_periodic:
  "find_neighbors (demo_env tag al) c h2_periodic = Inl TypeError" if "lr_cutoff c = None"
  using that by (simp add: find_neighbors_def demo_atoms_free demo_env_fields)

theorem no_dispatch_error_witness:
  "calculate (demo_env (Some ''GP'') 3) ((demo_calc (Some ''GP'') 3)\<lparr>DER_type := Some ''GP''\<rparr>)
     h2_periodic = Inl TypeError \<and>
   find_neighbors (demo_env (Some ''GP'') 3)
     ((demo_calc (Some ''GP'') 3)\<lparr>DER_type := Some ''GP''\<rparr>) h2_periodic = Inl TypeError"
proof -
  let ?E = "demo_env (Some ''GP'') 3"
  let ?c = "demo_calc (Some ''GP'') 3"
  have fn: "find_neighbors ?E (?c\<lparr>DER_type := Some ''GP''\<rparr>) h2_periodic = Inl TypeError"
    by (rule demo_find_neighbors_periodic) (simp add: demo_calc_fields)
  then have hyp: "calculate ?E (?c\<lparr>DER_type := Some ''GP''\<rparr>) h2_periodic = Inl TypeError"
    by (rule calculate_neighbors_fail)
  from no_dispatch_error[OF hyp] hyp fn show ?thesis by (intro conjI)
qed

text \<open>
  Claim C3, as stated, fails: with the unknown tag \<open>'GP'\<close> calculate raises nothing and
  stores the result of the first branch.
\<close>

theorem unknown_tag_is_evaluated:
  "DER_type (demo_calc (Some ''GP'') 3) = Some ''GP'' \<and>
   ''GP'' \<noteq> ''simple'' \<and> ''GP'' \<noteq> ''Lipz'' \<and> ''GP'' \<noteq> ''MD'' \<and>
   calculate (demo_env (Some ''GP'') 3) (demo_calc (Some ''GP'') 3) h2 =
     Inr (evaluated_state (demo_calc (Some ''GP'') 3) h2 (demo_out 3) None [Fin 2] [Fin 1])"
proof -
  have "calculate (demo_env (Some ''GP'') 3) (demo_calc (Some ''GP'') 3) h2 =
     Inr (evaluated_state (demo_calc (Some ''GP'') 3) h2 (demo_out 3) None [Fin 2] [Fin 1])"
    using demo_calculate[of "demo_calc (Some ''GP'') 3" 3 h2 "demo_env (Some ''GP'') 3"]
    by (simp add: demo_calc_fields demo_atoms_free)
  then show ?thesis by (simp add: demo_calc_fields)
qed

subsection \<open>The derived uncertainty\<close>

lemma broadcast_same_length:
  "length xs = length ys \<Longrightarrow> broadcast f xs ys = Inr (map2 f xs ys)"
  by (simp add: broadcast_def)

lemma simple_sigma2_same_length:
  assumes "length (out_alpha out) = length (out_beta out)"
  shows "simple_sigma2 out =
           Inr (map2 np_div (out_beta out) (map (\<lambda>x. x - 1) (out_alpha out)))"
  using assms by (simp add: simple_sigma2_def broadcast_same_length)

lemma simple_var_same_length:
  assumes "length (out_lambdas out) = length s2"
  shows "simple_var out s2 = Inr (map2 np_mul (map (np_div 1) (out_lambdas out)) s2)"
  using assms by (simp add: simple_var_def broadcast_same_length)

text \<open>The uncertainty of the first branch on outputs of one length, element by element.\<close>

lemma elementwise_uncertainty:
  assumes la: "length (out_alpha out) = length (out_beta out)"
    and ll: "length (out_lambdas out) = length (out_beta out)"
  shows "\<exists>s2 v. simple_sigma2 out = Inr s2 \<and> simple_var out s2 = Inr v \<and>
           length s2 = length (out_beta out) \<and> length v = length (out_beta out) \<and>
           (\<forall>k < length (out_beta out).
              s2 ! k = np_div (out_beta out ! k) (out_alpha out ! k - 1) \<and>
              v ! k = np_mul (np_div 1 (out_lambdas out ! k)) (s2 ! k))"
proof -
  let ?s2 = "map2 np_div (out_beta out) (map (\<lambda>x. x - 1) (out_alpha out))"
  let ?v = "map2 np_mul (map (np_div 1) (out_lambdas out)) ?s2"
  have s: "simple_sigma2 out = Inr ?s2" using la by (rule simple_sigma2_same_length)
  have ls: "length ?s2 = length (out_beta out)" using la by simp
  have v: "simple_var out ?s2 = Inr ?v"
    by (rule simple_var_same_length) (simp only: ls ll)
  have lv: "length ?v = length (out_beta out)" using la ll by simp
  have el: "?s2 ! k = np_div (out_beta out ! k) (out_alpha out ! k - 1) \<and>
            ?v ! k = np_mul (np_div 1 (out_lambdas out ! k)) (?s2 ! k)"
    if "k < length (out_beta out)" for k
    using that la ll by (simp del: np_div.simps)
  from s v ls lv el show ?thesis by blast
qed


lemma singleton_nth: "length xs = 1 \<Longrightarrow> xs = [xs ! 0]"
  by (cases xs) simp_all

text \<open>
  Claim C5. After a run of calculate that completes, the stored sigma2 and variance are
  derived from the outputs \<open>lambda\<close>, \<open>alpha\<close>, \<open>beta\<close> of the evidential entry point that
  was called: on outputs of one length, element \<open>k\<close> of sigma2 is
  \<open>beta[k] / (alpha[k] - 1)\<close> and element \<open>k\<close> of the variance is that over \<open>lambda[k]\<close>,
  wherever the divisors are not zero. For \<open>lambda = [2]\<close>, \<open>alpha = [3]\<close>, \<open>beta = [4]\<close>
  the stored sigma2 is \<open>[2]\<close> and the stored variance is \<open>[1]\<close>.
\<close>

theorem simple_uncertainty:
  assumes "calculate E c a = Inr c'"
  shows "\<exists>nb out hh s2 v.
      find_neighbors E c a = Inr nb \<and>
      evidential_call (c\<lparr>self_R := positions a\<rparr>)
        (network_input (c\<lparr>self_R := positions a\<rparr>) nb) = Inr (out, hh) \<and>
      sigma2 c' = Some s2 \<and> variance c' = Some v \<and>
      (length (out_alpha out) = length (out_beta out) \<and>
       length (out_lambdas out) = length (out_beta out) \<longrightarrow>
         length s2 = length (out_beta out) \<and> length v = length (out_beta out) \<and>
         (\<forall>k < length (out_beta out).
            (out_alpha out ! k \<noteq> 1 \<longrightarrow>
               s2 ! k = Fin (out_beta out ! k / (out_alpha out ! k - 1))) \<and>
            (out_alpha out ! k \<noteq> 1 \<and> out_lambdas out ! k \<noteq> 0 \<longrightarrow>
               v ! k = Fin (out_beta out ! k / (out_alpha out ! k - 1) / out_lambdas out ! k)))) \<and>
      (out_lambdas out = [2] \<and> out_alpha out = [3] \<and> out_beta out = [4] \<longrightarrow>
         s2 = [Fin 2] \<and> v = [Fin 1])"
proof -
  from calculate_InrD[OF assms] obtain nb out hh s2 v where
    nb: "find_neighbors E c a = Inr nb"
    and ev: "evidential_call (c\<lparr>self_R := positions a\<rparr>)
               (network_input (c\<lparr>self_R := positions a\<rparr>) nb) = Inr (out, hh)"
    and s2: "simple_sigma2 out = Inr s2" and v: "simple_var out s2 = Inr v"
    and c': "c' = evaluated_state c a out hh s2 v"
    by blast
  have st: "sigma2 c' = Some s2" "variance c' = Some v"
    by (simp_all add: c' evaluated_state_fields)
  have el: "length s2 = length (out_beta out) \<and> length v = length (out_beta out) \<and>
         (\<forall>k < length (out_beta out).
            s2 ! k = np_div (out_beta out ! k) (out_alpha out ! k - 1) \<and>
            v ! k = np_mul (np_div 1 (out_lambdas out ! k)) (s2 ! k))"
    if "length (out_alpha out) = length (out_beta out)"
      "length (out_lambdas out) = length (out_beta out)"
    using elementwise_uncertainty[OF that] s2 v by auto
  have gen: "length s2 = length (out_beta out) \<and> length v = length (out_beta out) \<and>
         (\<forall>k < length (out_beta out).
            (out_alpha out ! k \<noteq> 1 \<longrightarrow>
               s2 ! k = Fin (out_beta out ! k / (out_alpha out ! k - 1))) \<and>
            (out_alpha out ! k \<noteq> 1 \<and> out_lambdas out ! k \<noteq> 0 \<longrightarrow>
               v ! k = Fin (out_beta out ! k / (out_alpha out ! k - 1) / out_lambdas out ! k)))"
    if "length (out_alpha out) = length (out_beta out) \<and>
        length (out_lambdas out) = length (out_beta out)"
    using el that by simp
  have num: "s2 = [Fin 2] \<and> v = [Fin 1]"
    if h: "out_lambdas out = [2] \<and> out_alpha out = [3] \<and> out_beta out = [4]"
  proof -
    from h have l: "length (out_alpha out) = length (out_beta out)"
      "length (out_lambdas out) = length (out_beta out)" by simp_all
    from el[OF l] h have "length s2 = 1" "length v = 1" "s2 ! 0 = Fin 2"
      "v ! 0 = np_mul (np_div 1 2) (s2 ! 0)" by simp_all
    then show ?thesis using singleton_nth[of s2] singleton_nth[of v] by simp
  qed
  from nb ev st gen num show ?thesis by blast
qed

theorem simple_uncertainty_witness:
  "calculate (demo_env (Some ''simple'') 3) (demo_calc (Some ''simple'') 3) h2 =
     Inr (evaluated_state (demo_calc (Some ''simple'') 3) h2 (demo_out 3) None [Fin 2] [Fin 1]) \<and>
   out_lambdas (demo_out 3) = [2] \<and> out_alpha (demo_out 3) = [3] \<and> out_beta (demo_out 3) = [4] \<and>
   sigma2 (evaluated_state (demo_calc (Some ''simple'') 3) h2 (demo_out 3) None [Fin 2] [Fin 1])
     = Some [Fin 2] \<and>
   variance (evaluated_state (demo_calc (Some ''simple'') 3) h2 (demo_out 3) None [Fin 2] [Fin 1])
     = Some [Fin 1]"
proof -
  let ?E = "demo_env (Some ''simple'') 3"
  let ?c = "demo_calc (Some ''simple'') 3"
  let ?c' = "evaluated_state ?c h2 (demo_out 3) None [Fin 2] [Fin 1]"
  have calc: "calculate ?E ?c h2 = Inr ?c'"
    using demo_calculate[of ?c 3 h2 ?E] by (simp add: demo_calc_fields demo_atoms_free)
  have fn: "find_neighbors ?E ?c h2 = Inr ([0, 1], [1, 0], None, None, None, None)"
    by (simp add: find_neighbors_def demo_calc_fields demo_atoms_free demo_calc_def)
  from simple_uncertainty[OF calc] obtain nb out hh s2 v where
    nb: "find_neighbors ?E ?c h2 = Inr nb"
    and ev: "evidential_call (?c\<lparr>self_R := positions h2\<rparr>)
               (network_input (?c\<lparr>self_R := positions h2\<rparr>) nb) = Inr (out, hh)"
    and st: "sigma2 ?c' = Some s2" "variance ?c' = Some v"
    and num: "out_lambdas out = [2] \<and> out_alpha out = [3] \<and> out_beta out = [4] \<longrightarrow>
         s2 = [Fin 2] \<and> v = [Fin 1]"
    by blast
  from ev have out: "out = demo_out 3"
    by (simp add: evidential_call_def demo_calc_fields demo_network_fields)
  from num have "s2 = [Fin 2]" "v = [Fin 1]" by (simp_all add: out demo_out_fields)
  with st have "sigma2 ?c' = Some [Fin 2]" "variance ?c' = Some [Fin 1]" by simp_all
  with calc show ?thesis by (simp only: demo_out_fields simp_thms)
qed

subsection \<open>Degenerate evidential parameters\<close>

lemma np_mul_NonFinite_right: "np_mul a NonFinite = NonFinite"
  by (cases a) simp_all

lemma md_elements:
  "elem00 (md_sigma p2 p3 p4) = p2 * p2"
  "elem00 (md_sigma2 nu (md_sigma p2 p3 p4)) = np_mul (np_div nu (nu - 3)) (Fin (p2 * p2))"
  "elem00 (md_var nu (md_sigma2 nu (md_sigma p2 p3 p4))) =
     np_mul (np_div 1 nu) (np_mul (np_div nu (nu - 3)) (Fin (p2 * p2)))"
  by (simp_all add: elem00_def md_sigma_def md_sigma2_def md_var_def matmul2_def transpose2_def
      scale2_def fin2_def Let_def del: np_div.simps)

lemma md_branch_stored:
  assumes cm: "call_md c inp = Inr (cm, mo)" and len: "6 \<le> length (out_pred mo)"
  shows "\<exists>c'. md_branch c inp = Inr c' \<and>
           sigma2 c' = Some [Fin (elem00 (md_sigma (out_pred mo ! 2) (out_pred mo ! 3) (out_pred mo ! 4)))] \<and>
           variance c' = Some [elem00 (md_var (out_pred mo ! 5)
              (md_sigma2 (out_pred mo ! 5)
                 (md_sigma (out_pred mo ! 2) (out_pred mo ! 3) (out_pred mo ! 4))))]"
proof -
  from len have g: "tensor_get (out_pred mo) 0 = Inr (out_pred mo ! 0)"
    "tensor_get (out_pred mo) (Suc 0) = Inr (out_pred mo ! 1)"
    "tensor_get (out_pred mo) 2 = Inr (out_pred mo ! 2)"
    "tensor_get (out_pred mo) 3 = Inr (out_pred mo ! 3)"
    "tensor_get (out_pred mo) 4 = Inr (out_pred mo ! 4)"
    "tensor_get (out_pred mo) 5 = Inr (out_pred mo ! 5)"
    by (auto simp: tensor_get_def)
  show ?thesis
    by (cases "hessian_active cm") (simp_all add: md_branch_def cm g Let_def del: np_div.simps)
qed


text \<open>
  Claim C7, as amended. calculate does not check the evidential parameters and has no
  numeric error. When the neighbour search and the network call succeed and the three
  evidential outputs have one length, calculate completes whatever their values: where
  \<open>alpha = 1\<close> the stored sigma2 and variance are not finite, where \<open>lambda = 0\<close> the
  stored variance is not finite, and where \<open>alpha < 1\<close> with \<open>beta > 0\<close> the stored
  sigma2 is negative, and so is the variance when \<open>lambda > 0\<close>. The body of the second
  branch checks nothing either: on a prediction of six elements it completes, and its
  variance is not finite for \<open>nu = 3\<close> or \<open>nu = 0\<close> and negative for any other \<open>nu < 3\<close>
  with \<open>L00\<close> not zero.
\<close>

theorem degenerate_parameters_stored:
  "(find_neighbors E c a = Inr nb \<and>
    evidential_call (c\<lparr>self_R := positions a\<rparr>)
      (network_input (c\<lparr>self_R := positions a\<rparr>) nb) = Inr (out, hh) \<and>
    length (out_alpha out) = length (out_beta out) \<and>
    length (out_lambdas out) = length (out_beta out) \<longrightarrow>
      (\<exists>s2 v. calculate E c a = Inr (evaluated_state c a out hh s2 v) \<and>
         length s2 = length (out_beta out) \<and> length v = length (out_beta out) \<and>
         (\<forall>k < length (out_beta out).
            (out_alpha out ! k = 1 \<longrightarrow> s2 ! k = NonFinite \<and> v ! k = NonFinite) \<and>
            (out_lambdas out ! k = 0 \<longrightarrow> v ! k = NonFinite) \<and>
            (out_alpha out ! k < 1 \<and> 0 < out_beta out ! k \<longrightarrow> (\<exists>x<0. s2 ! k = Fin x)) \<and>
            (out_alpha out ! k < 1 \<and> 0 < out_beta out ! k \<and> 0 < out_lambdas out ! k \<longrightarrow>
               (\<exists>y<0. v ! k = Fin y))))) \<and>
   (call_md c inp = Inr (cm, mo) \<and> 6 \<le> length (out_pred mo) \<longrightarrow>
      (\<exists>c'. md_branch c inp = Inr c' \<and>
         (out_pred mo ! 5 = 3 \<or> out_pred mo ! 5 = 0 \<longrightarrow> variance c' = Some [NonFinite]) \<and>
         (out_pred mo ! 5 < 3 \<and> out_pred mo ! 5 \<noteq> 0 \<and> out_pred mo ! 2 \<noteq> 0 \<longrightarrow>
            (\<exists>y<0. variance c' = Some [Fin y]))))"
proof (intro conjI impI)
  assume h: "find_neighbors E c a = Inr nb \<and>
    evidential_call (c\<lparr>self_R := positions a\<rparr>)
      (network_input (c\<lparr>self_R := positions a\<rparr>) nb) = Inr (out, hh) \<and>
    length (out_alpha out) = length (out_beta out) \<and>
    length (out_lambdas out) = length (out_beta out)"
  then have la: "length (out_alpha out) = length (out_beta out)"
    and ll: "length (out_lambdas out) = length (out_beta out)" by simp_all
  from elementwise_uncertainty[OF la ll] obtain s2 v where
    s2: "simple_sigma2 out = Inr s2" and v: "simple_var out s2 = Inr v"
    and ls: "length s2 = length (out_beta out)" and lv: "length v = length (out_beta out)"
    and el: "\<forall>k < length (out_beta out).
              s2 ! k = np_div (out_beta out ! k) (out_alpha out ! k - 1) \<and>
              v ! k = np_mul (np_div 1 (out_lambdas out ! k)) (s2 ! k)"
    by blast
  from h s2 v have calc: "calculate E c a = Inr (evaluated_state c a out hh s2 v)"
    by (simp add: calculate_eq)
  have deg: "(out_alpha out ! k = 1 \<longrightarrow> s2 ! k = NonFinite \<and> v ! k = NonFinite) \<and>
            (out_lambdas out ! k = 0 \<longrightarrow> v ! k = NonFinite) \<and>
            (out_alpha out ! k < 1 \<and> 0 < out_beta out ! k \<longrightarrow> (\<exists>x<0. s2 ! k = Fin x)) \<and>
            (out_alpha out ! k < 1 \<and> 0 < out_beta out ! k \<and> 0 < out_lambdas out ! k \<longrightarrow>
               (\<exists>y<0. v ! k = Fin y))"
    if k: "k < length (out_beta out)" for k
  proof -
    from el k have e1: "s2 ! k = np_div (out_beta out ! k) (out_alpha out ! k - 1)"
      and e2: "v ! k = np_mul (np_div 1 (out_lambdas out ! k)) (s2 ! k)" by simp_all
    have a: "s2 ! k = NonFinite \<and> v ! k = NonFinite" if "out_alpha out ! k = 1"
      using that e1 e2 by (simp add: np_mul_NonFinite_right)
    have b: "v ! k = NonFinite" if "out_lambdas out ! k = 0"
      using that e2 by simp
    have neg: "out_beta out ! k / (out_alpha out ! k - 1) < 0"
      if "out_alpha out ! k < 1 \<and> 0 < out_beta out ! k"
      using that by (simp add: divide_pos_neg)
    have c: "\<exists>x<0. s2 ! k = Fin x" if "out_alpha out ! k < 1 \<and> 0 < out_beta out ! k"
      using that e1 neg[OF that] by auto
    have d: "\<exists>y<0. v ! k = Fin y"
      if t: "out_alpha out ! k < 1 \<and> 0 < out_beta out ! k \<and> 0 < out_lambdas out ! k"
    proof -
      from t have t': "out_alpha out ! k < 1 \<and> 0 < out_beta out ! k" by simp
      from t have "v ! k = Fin (1 / out_lambdas out ! k *
                      (out_beta out ! k / (out_alpha out ! k - 1)))"
        using e1 e2 by simp
      moreover have "1 / out_lambdas out ! k * (out_beta out ! k / (out_alpha out ! k - 1)) < 0"
      proof (rule mult_pos_neg)
        show "0 < 1 / out_lambdas out ! k" using t by simp
        show "out_beta out ! k / (out_alpha out ! k - 1) < 0" by (rule neg[OF t'])
      qed
      ultimately show ?thesis by blast
    qed
    from a b c d show ?thesis by blast
  qed
  from calc ls lv deg
  show "\<exists>s2 v. calculate E c a = Inr (evaluated_state c a out hh s2 v) \<and>
         length s2 = length (out_beta out) \<and> length v = length (out_beta out) \<and>
         (\<forall>k < length (out_beta out).
            (out_alpha out ! k = 1 \<longrightarrow> s2 ! k = NonFinite \<and> v ! k = NonFinite) \<and>
            (out_lambdas out ! k = 0 \<longrightarrow> v ! k = NonFinite) \<and>
            (out_alpha out ! k < 1 \<and> 0 < out_beta out ! k \<longrightarrow> (\<exists>x<0. s2 ! k = Fin x)) \<and>
            (out_alpha out ! k < 1 \<and> 0 < out_beta out ! k \<and> 0 < out_lambdas out ! k \<longrightarrow>
               (\<exists>y<0. v ! k = Fin y)))"
    by blast
next
  assume h: "call_md c inp = Inr (cm, mo) \<and> 6 \<le> length (out_pred mo)"
  then have cm: "call_md c inp = Inr (cm, mo)" and len: "6 \<le> length (out_pred mo)"
    by simp_all
  let ?nu = "out_pred mo ! 5" and ?p2 = "out_pred mo ! 2"
  from md_branch_stored[OF cm len] obtain c' where
    b: "md_branch c inp = Inr c'"
    and var: "variance c' = Some [np_mul (np_div 1 ?nu) (np_mul (np_div ?nu (?nu - 3)) (Fin (?p2 * ?p2)))]"
    unfolding md_elements by blast
  have a: "variance c' = Some [NonFinite]" if "?nu = 3 \<or> ?nu = 0"
    using that var by (auto simp: np_mul_NonFinite_right)
  have d: "\<exists>y<0. variance c' = Some [Fin y]" if t: "?nu < 3 \<and> ?nu \<noteq> 0 \<and> ?p2 \<noteq> 0"
  proof -
    from t have v: "variance c' = Some [Fin (1 / ?nu * (?nu / (?nu - 3) * (?p2 * ?p2)))]"
      using var by simp
    from t have eq: "1 / ?nu * (?nu / (?nu - 3) * (?p2 * ?p2)) = (?p2 * ?p2) / (?nu - 3)"
      by simp
    have lt: "(?p2 * ?p2) / (?nu - 3) < 0"
    proof (rule divide_pos_neg)
      from t have "?p2 \<noteq> 0" by simp
      then show "0 < ?p2 * ?p2" by (simp add: zero_less_mult_iff) linarith
      from t show "?nu - 3 < 0" by simp
    qed
    from lt have "1 / ?nu * (?nu / (?nu - 3) * (?p2 * ?p2)) < 0" by (simp only: eq)
    with v show ?thesis by blast
  qed
  from b a d
  show "\<exists>c'. md_branch c inp = Inr c' \<and>
         (out_pred mo ! 5 = 3 \<or> out_pred mo ! 5 = 0 \<longrightarrow> variance c' = Some [NonFinite]) \<and>
         (out_pred mo ! 5 < 3 \<and> out_pred mo ! 5 \<noteq> 0 \<and> out_pred mo ! 2 \<noteq> 0 \<longrightarrow>
            (\<exists>y<0. variance c' = Some [Fin y]))"
    by blast
qed

lemma demo_md_out_fields:
  "out_pred demo_md_out = [- 1, 0, 1, 1 / 2, 1, 5]"
  "out_md_forces demo_md_out = [(0, 0, 0), (0, 0, 0)]"
  by (simp_all add: demo_md_out_def)

lemma demo_call_md:
  "call_md (demo_calc tag al) inp =
     Inr ((demo_calc tag al)\<lparr>last_forces := Some [(0, 0, 0), (0, 0, 0)]\<rparr>, demo_md_out)"
  by (simp add: call_md_def demo_calc_fields demo_network_fields demo_md_out_fields)

lemma demo_find_neighbors_free:
  "find_neighbors E (demo_calc tag al) h2 = Inr ([0, 1], [1, 0], None, None, None, None)"
  by (simp add: find_neighbors_def demo_calc_fields demo_atoms_free demo_calc_def)

lemma demo_evidential_call:
  "evidential_call ((demo_calc tag al)\<lparr>self_R := positions h2\<rparr>) inp = Inr (demo_out al, None)"
  by (simp add: evidential_call_def demo_calc_fields demo_network_fields)

theorem degenerate_parameters_stored_witness:
  "find_neighbors (demo_env (Some ''simple'') (1 / 2)) (demo_calc (Some ''simple'') (1 / 2)) h2
     = Inr ([0, 1], [1, 0], None, None, None, None) \<and>
   out_alpha (demo_out (1 / 2)) = [1 / 2] \<and> out_beta (demo_out (1 / 2)) = [4] \<and>
   out_lambdas (demo_out (1 / 2)) = [2] \<and>
   (\<exists>s2 v. calculate (demo_env (Some ''simple'') (1 / 2)) (demo_calc (Some ''simple'') (1 / 2)) h2
             = Inr (evaluated_state (demo_calc (Some ''simple'') (1 / 2)) h2 (demo_out (1 / 2))
                      None s2 v) \<and>
           (\<exists>x<0. s2 ! 0 = Fin x) \<and> (\<exists>y<0. v ! 0 = Fin y)) \<and>
   6 \<le> length (out_pred demo_md_out) \<and>
   (\<exists>c'. md_branch (demo_calc (Some ''simple'') (1 / 2))
            (network_input (demo_calc (Some ''simple'') (1 / 2))
               ([0, 1], [1, 0], None, None, None, None)) = Inr c')"
proof -
  let ?E = "demo_env (Some ''simple'') (1 / 2)"
  let ?c = "demo_calc (Some ''simple'') (1 / 2)"
  let ?nb = "([0, 1], [1, 0], None, None, None, None) ::
     int list \<times> int list \<times> coord3 list option \<times> int list option \<times> int list option \<times> coord3 list option"
  let ?out = "demo_out (1 / 2)"
  let ?inp = "network_input ?c ?nb"
  let ?cm = "?c\<lparr>last_forces := Some [(0, 0, 0), (0, 0, 0)]\<rparr>"
  note th = degenerate_parameters_stored[of ?E ?c h2 ?nb ?out None ?inp ?cm demo_md_out]
  have fn: "find_neighbors ?E ?c h2 = Inr ?nb" by (rule demo_find_neighbors_free)
  have ev: "evidential_call (?c\<lparr>self_R := positions h2\<rparr>)
              (network_input (?c\<lparr>self_R := positions h2\<rparr>) ?nb) = Inr (?out, None)"
    by (rule demo_evidential_call)
  have o: "out_alpha ?out = [1 / 2]" "out_beta ?out = [4]" "out_lambdas ?out = [2]"
    by (simp_all add: demo_out_fields)
  have len: "length (out_alpha ?out) = length (out_beta ?out)"
    "length (out_lambdas ?out) = length (out_beta ?out)"
    by (simp_all add: o)
  from th[THEN conjunct1, rule_format, OF conjI[OF fn conjI[OF ev conjI[OF len]]]]
  obtain s2 v where
    calc: "calculate ?E ?c h2 = Inr (evaluated_state ?c h2 ?out None s2 v)"
    and el: "\<forall>k < length (out_beta ?out).
            (out_alpha ?out ! k = 1 \<longrightarrow> s2 ! k = NonFinite \<and> v ! k = NonFinite) \<and>
            (out_lambdas ?out ! k = 0 \<longrightarrow> v ! k = NonFinite) \<and>
            (out_alpha ?out ! k < 1 \<and> 0 < out_beta ?out ! k \<longrightarrow> (\<exists>x<0. s2 ! k = Fin x)) \<and>
            (out_alpha ?out ! k < 1 \<and> 0 < out_beta ?out ! k \<and> 0 < out_lambdas ?out ! k \<longrightarrow>
               (\<exists>y<0. v ! k = Fin y))"
    by blast
  from el[rule_format, of 0] have neg: "(\<exists>x<0. s2 ! 0 = Fin x) \<and> (\<exists>y<0. v ! 0 = Fin y)"
    by (simp add: o)
  have p1: "\<exists>s2 v. calculate ?E ?c h2 = Inr (evaluated_state ?c h2 ?out None s2 v) \<and>
           (\<exists>x<0. s2 ! 0 = Fin x) \<and> (\<exists>y<0. v ! 0 = Fin y)"
    using calc neg by blast
  have cm: "call_md ?c ?inp = Inr (?cm, demo_md_out)" by (rule demo_call_md)
  have l6: "6 \<le> length (out_pred demo_md_out)" by (simp add: demo_md_out_fields)
  from th[THEN conjunct2, rule_format, OF conjI[OF cm l6]]
  have p2: "\<exists>c'. md_branch ?c ?inp = Inr c'" by blast
  from fn o p1 l6 p2 show ?thesis by (intro conjI)
qed

text \<open>
  Claim C7, as stated, fails: with \<open>alpha = 1/2\<close> calculate raises nothing and stores the
  negative sigma2 \<open>-8\<close> and variance \<open>-4\<close>, and with \<open>alpha = 1\<close> it stores values that are
  not finite.
\<close>

theorem degenerate_alpha_is_stored:
  "out_alpha (demo_out (1 / 2)) = [1 / 2] \<and>
   calculate (demo_env (Some ''simple'') (1 / 2)) (demo_calc (Some ''simple'') (1 / 2)) h2 =
     Inr (evaluated_state (demo_calc (Some ''simple'') (1 / 2)) h2 (demo_out (1 / 2)) None
            [Fin (- 8)] [Fin (- 4)]) \<and>
   out_alpha (demo_out 1) = [1] \<and>
   calculate (demo_env (Some ''simple'') 1) (demo_calc (Some ''simple'') 1) h2 =
     Inr (evaluated_state (demo_calc (Some ''simple'') 1) h2 (demo_out 1) None
            [NonFinite] [NonFinite])"
proof -
  have a: "calculate (demo_env (Some ''simple'') (1 / 2)) (demo_calc (Some ''simple'') (1 / 2)) h2 =
     Inr (evaluated_state (demo_calc (Some ''simple'') (1 / 2)) h2 (demo_out (1 / 2)) None
            [Fin (- 8)] [Fin (- 4)])"
    using demo_calculate[of "demo_calc (Some ''simple'') (1 / 2)" "1 / 2" h2
        "demo_env (Some ''simple'') (1 / 2)"]
    by (simp add: demo_calc_fields demo_atoms_free)
  have b: "calculate (demo_env (Some ''simple'') 1) (demo_calc (Some ''simple'') 1) h2 =
     Inr (evaluated_state (demo_calc (Some ''simple'') 1) h2 (demo_out 1) None
            [NonFinite] [NonFinite])"
    using demo_calculate[of "demo_calc (Some ''simple'') 1" 1 h2 "demo_env (Some ''simple'') 1"]
    by (simp add: demo_calc_fields demo_atoms_free)
  from a b show ?thesis by (simp only: demo_out_fields simp_thms)
qed

text \<open>
  Claim C6, on the packed prediction \<open>[-1, 0, 1, 1/2, 1, 5]\<close>. The derived matrices are
  as the claim says: \<open>sigma[0,0] = 1\<close>, \<open>sigma2[0,0] = 5/2\<close>, \<open>variance[0,0] = 1/2\<close>. The
  body of the second branch stores the variance \<open>1/2\<close>, but as sigma2 it stores
  \<open>sigma[0,0] = 1\<close>, not \<open>sigma2[0,0] = 5/2\<close>.
\<close>

theorem md_branch_stores_sigma:
  "out_pred demo_md_out = [- 1, 0, 1, 1 / 2, 1, 5] \<and>
   elem00 (md_sigma 1 (1 / 2) 1) = 1 \<and>
   elem00 (md_sigma2 5 (md_sigma 1 (1 / 2) 1)) = Fin (5 / 2) \<and>
   elem00 (md_var 5 (md_sigma2 5 (md_sigma 1 (1 / 2) 1))) = Fin (1 / 2) \<and>
   map_sum id (\<lambda>c'. (sigma2 c', variance c'))
     (md_branch (demo_calc (Some ''MD'') 3)
        (network_input (demo_calc (Some ''MD'') 3) ([0, 1], [1, 0], None, None, None, None)))
     = Inr (Some [Fin 1], Some [Fin (1 / 2)])"
proof -
  let ?c = "demo_calc (Some ''MD'') 3"
  let ?inp = "network_input ?c ([0, 1], [1, 0], None, None, None, None)"
  have e: "elem00 (md_sigma 1 (1 / 2) 1) = 1"
    "elem00 (md_sigma2 5 (md_sigma 1 (1 / 2) 1)) = Fin (5 / 2)"
    "elem00 (md_var 5 (md_sigma2 5 (md_sigma 1 (1 / 2) 1))) = Fin (1 / 2)"
    by (simp_all add: md_elements)
  have l6: "6 \<le> length (out_pred demo_md_out)" by (simp add: demo_md_out_fields)
  from md_branch_stored[OF demo_call_md l6, of "Some ''MD''" 3 ?inp]
  obtain c' where b: "md_branch ?c ?inp = Inr c'"
    and s: "sigma2 c' = Some [Fin 1]" and v: "variance c' = Some [Fin (1 / 2)]"
    by (auto simp: demo_md_out_fields e)
  have "map_sum id (\<lambda>c'. (sigma2 c', variance c')) (md_branch ?c ?inp)
     = Inr (Some [Fin 1], Some [Fin (1 / 2)])"
    by (simp add: b s v)
  with e show ?thesis by (simp only: demo_md_out_fields simp_thms)
qed

subsection \<open>The all-pairs index\<close>

lemma shifted_index:
  fixes n i t k :: nat
  assumes i: "i < n" and t: "t < n - 1" and k: "k = i * (n - 1) + t"
  shows "(k mod n + k div n + 1) mod n = (if t < i then t else t + 1)"
proof (cases "t < i")
  case True
  then obtain i' where i': "i = Suc i'" by (cases i) simp_all
  have k': "k = i' * n + (n - i + t)"
    using i t True by (simp add: k i' algebra_simps diff_mult_distrib2)
  have r: "n - i + t < n" using i True by simp
  have d: "k div n = i'" and m: "k mod n = n - i + t"
    using r by (simp_all add: k')
  have "n - i + t + i' + 1 = n + t" using i True by (simp add: i')
  then have "(k mod n + k div n + 1) mod n = (n + t) mod n" by (simp only: d m)
  also have "\<dots> = t" using t by simp
  finally show ?thesis using True by simp
next
  case False
  have k': "k = i * n + (t - i)"
    using i t False by (simp add: k algebra_simps diff_mult_distrib2)
  have r: "t - i < n" using t by simp
  have d: "k div n = i" and m: "k mod n = t - i"
    using r by (simp_all add: k')
  have "t - i + i + 1 = t + 1" using False by simp
  then have "(k mod n + k div n + 1) mod n = (t + 1) mod n" by (simp only: d m)
  also have "\<dots> = t + 1" using t by simp
  finally show ?thesis using False by simp
qed

lemma nth_concat_uniform:
  assumes "\<forall>xs \<in> set xss. length xs = n" and "k < n * length xss"
  shows "concat xss ! k = xss ! (k div n) ! (k mod n)"
  using assms
proof (induction xss arbitrary: k)
  case Nil
  then show ?case by simp
next
  case (Cons xs xss)
  then have l: "length xs = n" by simp
  show ?case
  proof (cases "k < n")
    case True
    then show ?thesis using l by (simp add: nth_append)
  next
    case False
    then have kn: "n \<le> k" by simp
    from Cons.prems have "k - n < n * length xss" using kn by simp
    with Cons have ih: "concat xss ! (k - n) = xss ! ((k - n) div n) ! ((k - n) mod n)" by simp
    from False l have n0: "0 < n" using Cons.prems by (cases n) simp_all
    have "k div n = Suc ((k - n) div n)" using kn n0 by (simp add: le_div_geq)
    moreover have "k mod n = (k - n) mod n" using kn by (simp add: le_mod_geq)
    ultimately show ?thesis using False l ih by (simp add: nth_append)
  qed
qed

lemma roll_loop_append:
  "roll_loop idx rs acc = acc @ concat (map (\<lambda>r. roll idx (- int r)) rs)"
  by (induction rs arbitrary: acc) simp_all

lemma roll_rotate:
  assumes "r < length xs"
  shows "roll xs (- int r) = rotate r xs"
proof -
  from assms have "xs \<noteq> []" by auto
  moreover have "nat (int r mod int (length xs)) = r"
    using assms by (simp add: zmod_int [symmetric])
  ultimately show ?thesis by (simp add: roll_def)
qed

lemma idx_j_rotations:
  assumes "2 \<le> n" and "length idx = n"
  shows "roll_loop idx [2..<n] (roll idx (- 1)) = concat (map (\<lambda>r. rotate r idx) [1..<n])"
proof -
  have "roll idx (- 1) = roll idx (- int 1)" by simp
  also have "\<dots> = rotate 1 idx" using assms by (intro roll_rotate) simp
  finally have r1: "roll idx (- 1) = rotate 1 idx" .
  have rs: "map (\<lambda>r. roll idx (- int r)) [2..<n] = map (\<lambda>r. rotate r idx) [2..<n]"
    using assms by (intro map_cong refl roll_rotate) simp
  have u: "[1..<n] = 1 # [2..<n]" using assms by (simp add: upt_rec numeral_2_eq_2)
  show ?thesis by (simp only: roll_loop_append r1 rs u list.map concat.simps)
qed

lemma mset_concat_replicate_each:
  "mset (concat (map (replicate m) xs)) = mset (concat (replicate m xs))"
proof (induction m)
  case 0
  then show ?case by (induction xs) simp_all
next
  case (Suc m)
  have "mset (concat (map (replicate (Suc m)) xs)) = mset xs + mset (concat (map (replicate m) xs))"
    by (induction xs) simp_all
  also have "\<dots> = mset xs + mset (concat (replicate m xs))" by (simp only: Suc)
  also have "\<dots> = mset (concat (replicate (Suc m) xs))" by simp
  finally show ?case .
qed

lemma sorted_concat_replicate_each:
  "sorted xs \<Longrightarrow> sorted (concat (map (replicate m) xs))"
  by (induction xs) (auto simp: sorted_append)

lemma sort_tiled:
  assumes "sorted xs"
  shows "sort (concat (replicate m xs)) = concat (map (replicate m) xs)"
  by (rule properties_for_sort)
     (simp_all add: mset_concat_replicate_each sorted_concat_replicate_each assms)

lemma idx_i_nth:
  assumes "k < m * n"
  shows "concat (map (replicate m) (arange n)) ! k = int (k div m)"
proof -
  from assms have m0: "0 < m" by (cases m) simp_all
  from assms m0 have d: "k div m < n" by (simp add: less_mult_imp_div_less mult.commute)
  have "concat (map (replicate m) (arange n)) ! k
          = map (replicate m) (arange n) ! (k div m) ! (k mod m)"
    by (rule nth_concat_uniform) (use assms in \<open>auto simp: arange_def\<close>)
  also have "\<dots> = int (k div m)" using d m0 by (simp add: arange_def)
  finally show ?thesis .
qed

lemma idx_j_nth:
  assumes "k < n * (n - 1)"
  shows "concat (map (\<lambda>r. rotate r (arange n)) [1..<n]) ! k
           = int ((k mod n + k div n + 1) mod n)"
proof -
  from assms have n0: "0 < n" by (cases n) simp_all
  from assms n0 have d: "k div n < n - 1" by (simp add: less_mult_imp_div_less mult.commute)
  have l: "length (arange n) = n" by (simp add: arange_def)
  have "concat (map (\<lambda>r. rotate r (arange n)) [1..<n]) ! k
          = map (\<lambda>r. rotate r (arange n)) [1..<n] ! (k div n) ! (k mod n)"
    by (rule nth_concat_uniform) (use assms l in auto)
  also have "\<dots> = rotate (1 + k div n) (arange n) ! (k mod n)" using d by simp
  also have "\<dots> = arange n ! ((1 + k div n + k mod n) mod n)"
    using nth_rotate[of "k mod n" "arange n" "1 + k div n"] n0 l by (simp only: mod_less_divisor)
  also have "\<dots> = int ((1 + k div n + k mod n) mod n)"
    using n0 by (simp add: arange_def)
  finally show ?thesis by (simp add: ac_simps)
qed

lemma get_indices_pairs:
  assumes "2 \<le> len_atoms a"
  shows "\<exists>ii jj. get_indices a = Inr (ii, jj) \<and>
           length ii = len_atoms a * (len_atoms a - 1) \<and>
           length jj = len_atoms a * (len_atoms a - 1) \<and>
           zip ii jj = map (index_pair (len_atoms a)) [0..<len_atoms a * (len_atoms a - 1)]"
proof -
  let ?n = "len_atoms a"
  let ?m = "?n - 1"
  let ?ii = "concat (map (replicate ?m) (arange ?n))"
  let ?jj = "concat (map (\<lambda>r. rotate r (arange ?n)) [1..<?n])"
  have l: "length (arange ?n) = ?n" by (simp add: arange_def)
  have s: "sorted (arange ?n)" by (simp add: arange_def sorted_map)
  have rep: "repeat (arange ?n) (int ?n - 1) = Inr (concat (replicate ?m (arange ?n)))"
    using assms by (simp add: repeat_def nat_diff_distrib)
  have gi: "get_indices a = Inr (?ii, ?jj)"
    using assms by (simp add: get_indices_def rep Let_def sort_tiled[OF s]
        idx_j_rotations[OF assms l])
  have li: "length ?ii = ?n * ?m"
    by (simp add: length_concat comp_def sum_list_triv l mult.commute)
  have lj: "length ?jj = ?n * ?m"
    by (simp add: length_concat comp_def sum_list_triv l)
  have z: "zip ?ii ?jj = map (index_pair ?n) [0..<?n * ?m]"
  proof (rule nth_equalityI)
    show "length (zip ?ii ?jj) = length (map (index_pair ?n) [0..<?n * ?m])"
      by (simp only: length_zip li lj length_map length_upt)
  next
    fix k assume "k < length (zip ?ii ?jj)"
    then have k: "k < ?n * ?m" by (simp only: length_zip li lj min.idem)
    then have k': "k < ?m * ?n" by (simp add: mult.commute)
    have "zip ?ii ?jj ! k = (?ii ! k, ?jj ! k)" using k li lj by (simp only: nth_zip)
    also have "\<dots> = index_pair ?n k"
      by (simp only: idx_i_nth[OF k'] idx_j_nth[OF k] index_pair_def)
    also have "\<dots> = map (index_pair ?n) [0..<?n * ?m] ! k" using k by simp
    finally show "zip ?ii ?jj ! k = map (index_pair ?n) [0..<?n * ?m] ! k" .
  qed
  from gi li lj z show ?thesis by blast
qed

lemma index_pair_decomposed:
  assumes i: "i < n" and t: "t < n - 1"
  shows "index_pair n (i * (n - 1) + t) = (int i, int (if t < i then t else t + 1))"
proof -
  have "(i * (n - 1) + t) div (n - 1) = i" using t by simp
  moreover have "((i * (n - 1) + t) mod n + (i * (n - 1) + t) div n + 1) mod n
                   = (if t < i then t else t + 1)"
    using i t by (rule shifted_index) simp
  ultimately show ?thesis by (simp only: index_pair_def)
qed

lemma index_pair_of_position:
  fixes k n :: nat
  assumes "k < n * (n - 1)"
  shows "\<exists>i t. i < n \<and> t < n - 1 \<and> k = i * (n - 1) + t"
proof -
  from assms have m0: "0 < n - 1" by (cases "n - 1") simp_all
  have "k div (n - 1) < n" using assms m0 by (simp add: less_mult_imp_div_less)
  moreover have "k mod (n - 1) < n - 1" using m0 by simp
  moreover have "k = k div (n - 1) * (n - 1) + k mod (n - 1)"
    by (rule div_mult_mod_eq[symmetric])
  ultimately show ?thesis by blast
qed

lemma index_pair_inj:
  "inj_on (index_pair n) {0..<n * (n - 1)}"
proof (rule inj_onI)
  fix k k' assume "k \<in> {0..<n * (n - 1)}" "k' \<in> {0..<n * (n - 1)}"
    and eq: "index_pair n k = index_pair n k'"
  then have "k < n * (n - 1)" "k' < n * (n - 1)" by simp_all
  then obtain i t i' t' where i: "i < n" and t: "t < n - 1" and k: "k = i * (n - 1) + t"
    and i': "i' < n" and t': "t' < n - 1" and k': "k' = i' * (n - 1) + t'"
    using index_pair_of_position by metis
  from eq have p: "(int i, int (if t < i then t else t + 1))
                  = (int i', int (if t' < i' then t' else t' + 1))"
    by (simp only: k k' index_pair_decomposed[OF i t] index_pair_decomposed[OF i' t'])
  from p have "int i = int i'" by (rule Pair_inject)
  then have ii: "i = i'" by (simp only: of_nat_eq_iff)
  from p have "int (if t < i then t else t + 1) = int (if t' < i' then t' else t' + 1)"
    by (rule Pair_inject)
  then have jj: "(if t < i then t else t + 1) = (if t' < i' then t' else t' + 1)"
    by (simp only: of_nat_eq_iff)
  from jj have "t = t'" unfolding ii by (auto split: if_splits)
  with ii show "k = k'" by (simp add: k k')
qed

lemma index_pair_image:
  "index_pair n ` {0..<n * (n - 1)} = {(int i, int j) | i j. i < n \<and> j < n \<and> i \<noteq> j}"
proof (intro equalityI subsetI)
  fix p assume "p \<in> index_pair n ` {0..<n * (n - 1)}"
  then obtain k where kl: "k < n * (n - 1)" and p: "p = index_pair n k" by auto
  from index_pair_of_position[OF kl] obtain i t where
    i: "i < n" and t: "t < n - 1" and k: "k = i * (n - 1) + t" by blast
  let ?j = "if t < i then t else t + 1"
  have "p = (int i, int ?j)" by (simp only: p k index_pair_decomposed[OF i t])
  moreover have "?j < n" "i \<noteq> ?j" using t by auto
  ultimately show "p \<in> {(int i, int j) | i j. i < n \<and> j < n \<and> i \<noteq> j}"
    using i by blast
next
  fix p assume "p \<in> {(int i, int j) | i j. i < n \<and> j < n \<and> i \<noteq> j}"
  then obtain i j where p: "p = (int i, int j)" and i: "i < n" and j: "j < n" and ne: "i \<noteq> j"
    by blast
  let ?t = "if j < i then j else j - 1"
  have t: "?t < n - 1" using i j ne by auto
  have j': "(if ?t < i then ?t else ?t + 1) = j" using ne by auto
  have "i * (n - 1) + ?t < i * (n - 1) + (n - 1)" using t by simp
  also have "\<dots> = Suc i * (n - 1)" by simp
  also have "\<dots> \<le> n * (n - 1)" using i by (intro mult_le_mono1) simp
  finally have kl: "i * (n - 1) + ?t \<in> {0..<n * (n - 1)}" by simp
  have "index_pair n (i * (n - 1) + ?t) = (int i, int (if ?t < i then ?t else ?t + 1))"
    by (rule index_pair_decomposed[OF i t])
  then have "index_pair n (i * (n - 1) + ?t) = p" by (simp only: j' p)
  with kl show "p \<in> index_pair n ` {0..<n * (n - 1)}" by blast
qed

text \<open>
  The all-pairs index of two or more atoms: two sequences of \<open>N (N - 1)\<close> indices that,
  paired up, list every ordered pair of two different atoms, each once.
\<close>

theorem get_indices_all_pairs:
  assumes "2 \<le> len_atoms a"
  shows "\<exists>ii jj. get_indices a = Inr (ii, jj) \<and>
           length ii = len_atoms a * (len_atoms a - 1) \<and>
           length jj = len_atoms a * (len_atoms a - 1) \<and>
           distinct (zip ii jj) \<and>
           set (zip ii jj) =
             {(int i, int j) | i j. i < len_atoms a \<and> j < len_atoms a \<and> i \<noteq> j}"
proof -
  let ?n = "len_atoms a"
  from get_indices_pairs[OF assms] obtain ii jj where
    gi: "get_indices a = Inr (ii, jj)"
    and li: "length ii = ?n * (?n - 1)" and lj: "length jj = ?n * (?n - 1)"
    and z: "zip ii jj = map (index_pair ?n) [0..<?n * (?n - 1)]"
    by blast
  have d: "distinct (zip ii jj)"
    unfolding z by (simp only: distinct_map distinct_upt set_upt index_pair_inj simp_thms)
  have s: "set (zip ii jj) = {(int i, int j) | i j. i < ?n \<and> j < ?n \<and> i \<noteq> j}"
    unfolding z by (simp only: set_map set_upt index_pair_image)
  from gi li lj d s show ?thesis by blast
qed

theorem get_indices_all_pairs_witness:
  "2 \<le> len_atoms h2 \<and> get_indices h2 = Inr ([0, 1], [1, 0]) \<and>
   distinct (zip [0, 1 :: int] [1, 0 :: int]) \<and>
   set (zip [0, 1 :: int] [1, 0]) = {(0, 1), (1, 0)}"
proof -
  have a: "2 \<le> len_atoms h2" by (simp add: len_atoms_def h2_fields)
  from get_indices_all_pairs[OF a] obtain ii jj where
    "get_indices h2 = Inr (ii, jj)" and d: "distinct (zip ii jj)" by blast
  then have "ii = [0, 1]" "jj = [1, 0]" by (simp_all add: get_indices_h2)
  with d have "distinct (zip [0, 1 :: int] [1, 0 :: int])" by simp
  moreover have "set (zip [0, 1 :: int] [1, 0]) = {(0, 1), (1, 0)}" by simp
  ultimately show ?thesis using a get_indices_h2 by (intro conjI)
qed

text \<open>On no atoms the tiling count is negative and the tensor empty: both sequences are
  empty and no error is raised.\<close>

lemma get_indices_no_atoms:
  "len_atoms a = 0 \<Longrightarrow> get_indices a = Inr ([], [])"
  by (simp add: get_indices_def arange_def repeat_def roll_def Let_def)

text \<open>
  Claim C4, at one atom: the index of a single atom is not a pair of empty sequences.
  \<open>idx_i\<close> is empty, and \<open>idx_j\<close>, the roll of \<open>[0]\<close> made before the test \<open>N >= 2\<close>, is
  \<open>[0]\<close>: the two sequences have different lengths. No error is raised.
\<close>

theorem get_indices_single_atom: "get_indices single_atom = Inr ([], [0])"
  by (simp add: get_indices_def single_atom_def len_atoms_def arange_def repeat_def roll_def Let_def)

end
